theory Spec2Isabelle
  imports Complex_Main "HOL-Library.Product_Lexorder"
begin

section \<open>JavaScript numbers\<close>

text \<open>
  A JavaScript number is an IEEE double: NaN, the two infinities, or a finite value.
  Finite values are carried as reals and the arithmetic below is the exact one, so
  rounding and the sign of zero are outside the model; comparisons, the propagation
  of NaN and of the infinities follow the language.
\<close>

datatype jsnum = NaN | NegInf | Fin real | PosInf

fun isNaN :: "jsnum \<Rightarrow> bool" where
  "isNaN NaN = True"
| "isNaN _ = False"

text \<open>\<open>a < b\<close> on numbers: false as soon as one side is NaN.\<close>

fun js_lt :: "jsnum \<Rightarrow> jsnum \<Rightarrow> bool" where
  "js_lt (Fin x) (Fin y) = (x < y)"
| "js_lt NegInf (Fin y) = True"
| "js_lt NegInf PosInf = True"
| "js_lt (Fin x) PosInf = True"
| "js_lt _ _ = False"

definition js_gt :: "jsnum \<Rightarrow> jsnum \<Rightarrow> bool" where
  "js_gt a b = js_lt b a"

text \<open>\<open>a === b\<close> on numbers: NaN equals nothing.\<close>

definition js_eq :: "jsnum \<Rightarrow> jsnum \<Rightarrow> bool" where
  "js_eq a b = (\<not> isNaN a \<and> \<not> isNaN b \<and> a = b)"

text \<open>\<open>a >= b\<close> on numbers.\<close>

definition js_ge :: "jsnum \<Rightarrow> jsnum \<Rightarrow> bool" where
  "js_ge a b = (js_lt b a \<or> js_eq a b)"

fun js_neg :: "jsnum \<Rightarrow> jsnum" where
  "js_neg NaN = NaN"
| "js_neg NegInf = PosInf"
| "js_neg PosInf = NegInf"
| "js_neg (Fin x) = Fin (- x)"

fun js_add :: "jsnum \<Rightarrow> jsnum \<Rightarrow> jsnum" where
  "js_add NaN _ = NaN"
| "js_add _ NaN = NaN"
| "js_add PosInf NegInf = NaN"
| "js_add NegInf PosInf = NaN"
| "js_add PosInf _ = PosInf"
| "js_add _ PosInf = PosInf"
| "js_add NegInf _ = NegInf"
| "js_add _ NegInf = NegInf"
| "js_add (Fin x) (Fin y) = Fin (x + y)"

definition js_sub :: "jsnum \<Rightarrow> jsnum \<Rightarrow> jsnum" where
  "js_sub a b = js_add a (js_neg b)"

text \<open>The sign of a product or quotient whose magnitude is infinite.\<close>

definition signedInf :: "bool \<Rightarrow> jsnum" where
  "signedInf negative = (if negative then NegInf else PosInf)"

fun js_mul :: "jsnum \<Rightarrow> jsnum \<Rightarrow> jsnum" where
  "js_mul NaN _ = NaN"
| "js_mul _ NaN = NaN"
| "js_mul (Fin x) (Fin y) = Fin (x * y)"
| "js_mul (Fin x) PosInf = (if x = 0 then NaN else signedInf (x < 0))"
| "js_mul (Fin x) NegInf = (if x = 0 then NaN else signedInf (0 < x))"
| "js_mul PosInf (Fin y) = (if y = 0 then NaN else signedInf (y < 0))"
| "js_mul NegInf (Fin y) = (if y = 0 then NaN else signedInf (0 < y))"
| "js_mul PosInf PosInf = PosInf"
| "js_mul NegInf NegInf = PosInf"
| "js_mul PosInf NegInf = NegInf"
| "js_mul NegInf PosInf = NegInf"

fun js_div :: "jsnum \<Rightarrow> jsnum \<Rightarrow> jsnum" where
  "js_div NaN _ = NaN"
| "js_div _ NaN = NaN"
| "js_div (Fin x) (Fin y) =
     (if y = 0 then (if x = 0 then NaN else signedInf (x < 0)) else Fin (x / y))"
| "js_div (Fin x) PosInf = Fin 0"
| "js_div (Fin x) NegInf = Fin 0"
| "js_div PosInf (Fin y) = signedInf (y < 0)"
| "js_div NegInf (Fin y) = signedInf (0 \<le> y)"
| "js_div PosInf PosInf = NaN"
| "js_div PosInf NegInf = NaN"
| "js_div NegInf PosInf = NaN"
| "js_div NegInf NegInf = NaN"

section \<open>Column aggregations\<close>

text \<open>
  The aggregation engine is modelled on columns whose values are JavaScript numbers
  (\<open>column.values\<close> as a list of \<open>jsnum\<close>). On a number \<open>parseFloat\<close> is the identity
  and \<open>valueSignifiedUndefined\<close> is \<open>numberSignifiesUndefined\<close>.
\<close>

definition numberSignifiesUndefined :: "jsnum \<Rightarrow> bool" where
  "numberSignifiesUndefined v = (isNaN v \<or> v = Fin 2147483647)"

definition valueSignifiedUndefined :: "jsnum \<Rightarrow> bool" where
  "valueSignifiedUndefined v = numberSignifiesUndefined v"

definition parseFloat :: "jsnum \<Rightarrow> jsnum" where
  "parseFloat v = v"

text \<open>The aggregation \<open>count\<close>: \<open>this.column.values.length\<close>.\<close>

definition count :: "jsnum list \<Rightarrow> nat" where
  "count vals = length vals"

subsection \<open>\<open>fixedAllocationNumericAggregations\<close>\<close>

record NumericAggregations =
  minValue :: jsnum
  maxValue :: jsnum
  sumValue :: jsnum
  averageValue :: jsnum

text \<open>
  The body of the \<open>for\<close> loop, with the running \<open>minValue\<close>, \<open>maxValue\<close> and \<open>sum\<close>
  as accumulators. The source writes \<open>if (value < minValue) ... else if (value > maxValue) ...\<close>.
\<close>

fun numericLoop :: "jsnum list \<Rightarrow> jsnum \<Rightarrow> jsnum \<Rightarrow> jsnum \<Rightarrow> jsnum \<times> jsnum \<times> jsnum" where
  "numericLoop [] mn mx s = (mn, mx, s)"
| "numericLoop (v # rest) mn mx s =
     (if numberSignifiesUndefined v then numericLoop rest mn mx s
      else if js_lt v mn then numericLoop rest v mx (js_add s (parseFloat v))
      else if js_gt v mx then numericLoop rest mn v (js_add s (parseFloat v))
      else numericLoop rest mn mx (js_add s (parseFloat v)))"

definition fixedAllocationNumericAggregations :: "jsnum list \<Rightarrow> NumericAggregations" where
  "fixedAllocationNumericAggregations vals =
     (let numValues = count vals in
      case numericLoop (take numValues vals) PosInf NegInf (Fin 0) of
        (mn, mx, s) \<Rightarrow>
          \<lparr> minValue = mn, maxValue = mx, sumValue = s,
            averageValue = js_div s (Fin (real numValues)) \<rparr>)"

text \<open>
  The spec's words for the average: the sum of the defined values, divided by the
  total number of values of the column.
\<close>

definition sumOfDefined :: "jsnum list \<Rightarrow> jsnum" where
  "sumOfDefined vals = foldl js_add (Fin 0) (filter (\<lambda>v. \<not> numberSignifiesUndefined v) vals)"

subsection \<open>\<open>inferDataType\<close>\<close>

datatype dataType = DT_integer | DT_number | DT_string | DT_date

text \<open>
  \<open>parseInt(value) == value\<close> on a number: \<open>parseInt\<close> reads the decimal digits of the
  number's string form, which is the number itself exactly when it is an integer below
  \<open>1e21\<close> in magnitude (from there on the string form is in exponent notation).
\<close>

fun isIntegralValue :: "jsnum \<Rightarrow> bool" where
  "isIntegralValue (Fin x) = (x = of_int \<lfloor>x\<rfloor> \<and> \<bar>x\<bar> < 10 ^ 21)"
| "isIntegralValue _ = False"

text \<open>
  The loop of \<open>inferDataType\<close>, with \<open>jsType\<close> (\<open>typeof\<close> of the last defined value,
  \<open>None\<close> while there was none), \<open>isNumeric\<close> and \<open>isIntegral\<close> as accumulators.
\<close>

fun inferLoop ::
  "jsnum list \<Rightarrow> string option \<Rightarrow> bool \<Rightarrow> bool \<Rightarrow> string option \<times> bool \<times> bool" where
  "inferLoop [] jsType0 isNumeric0 isIntegral0 = (jsType0, isNumeric0, isIntegral0)"
| "inferLoop (v # rest) jsType0 isNumeric0 isIntegral0 =
     (if valueSignifiedUndefined v then inferLoop rest jsType0 isNumeric0 isIntegral0
      else if isNumeric0 then
        (let isNumeric1 = (isNumeric0 \<and> \<not> isNaN v);
             isIntegral1 = (isNumeric1 \<and> isIntegralValue v)
         in inferLoop rest (Some ''number'') isNumeric1 isIntegral1)
      else inferLoop rest (Some ''number'') isNumeric0 isIntegral0)"

definition OrderedDataTypes :: "dataType list" where
  "OrderedDataTypes = [DT_number, DT_integer, DT_string, DT_date]"

record TypeSummary =
  jsType :: "string option"
  isNumeric :: bool
  isIntegral :: bool
  isContinuous :: bool
  dataTypeOf :: dataType
  isQuantitative :: bool
  isOrdered :: bool

definition inferDataType :: "jsnum list \<Rightarrow> TypeSummary" where
  "inferDataType vals =
     (case inferLoop (take (count vals) vals) None True True of
        (js, num, intg) \<Rightarrow>
          let dt = (if intg then DT_integer else if num then DT_number else DT_string)
          in \<lparr> jsType = js, isNumeric = num, isIntegral = intg,
               isContinuous = (num \<and> \<not> intg), dataTypeOf = dt,
               isQuantitative = (num \<and> \<not> intg),
               isOrdered = (dt \<in> set OrderedDataTypes) \<rparr>)"

subsection \<open>\<open>countDistinct\<close>\<close>

text \<open>
  \<open>distinctCounts\<close> is an object used as a dictionary from value to count. Its keys are
  the string forms of the values, which differ for different defined numbers, so the
  dictionary is a map on the numbers themselves.
\<close>

record DistinctState =
  distinctCounts :: "jsnum \<rightharpoonup> nat"
  numDistinct :: nat
  dMinValue :: jsnum
  dMaxValue :: jsnum

fun countDistinctLoop :: "int \<Rightarrow> jsnum list \<Rightarrow> DistinctState \<Rightarrow> DistinctState" where
  "countDistinctLoop limit [] st = st"
| "countDistinctLoop limit (v # rest) st =
     (if valueSignifiedUndefined v then countDistinctLoop limit rest st
      else
        let st1 = (if js_lt v (dMinValue st) then st\<lparr>dMinValue := v\<rparr>
                   else if js_gt v (dMaxValue st) then st\<lparr>dMaxValue := v\<rparr>
                   else st)
        in if int (numDistinct st1) > limit then countDistinctLoop limit rest st1
           else (case distinctCounts st1 v of
                   None \<Rightarrow> countDistinctLoop limit rest
                     (st1\<lparr>numDistinct := numDistinct st1 + 1,
                          distinctCounts := (distinctCounts st1)(v \<mapsto> 1)\<rparr>)
                 | Some c \<Rightarrow> countDistinctLoop limit rest
                     (st1\<lparr>distinctCounts := (distinctCounts st1)(v \<mapsto> c + 1)\<rparr>)))"

definition MaxDistinctValues :: int where
  "MaxDistinctValues = 400"

definition initialDistinctState :: DistinctState where
  "initialDistinctState =
     \<lparr> distinctCounts = Map.empty, numDistinct = 0, dMinValue = PosInf, dMaxValue = NegInf \<rparr>"

record DistinctAggregations =
  countDistinct :: nat
  distinctValues :: "jsnum \<rightharpoonup> nat"
  isCategorical :: bool

text \<open>\<open>countDistinct(limit)\<close>; \<open>None\<close> is an omitted \<open>limit\<close>.\<close>

definition countDistinctAgg :: "int option \<Rightarrow> jsnum list \<Rightarrow> DistinctAggregations" where
  "countDistinctAgg limitArg vals =
     (let limit = (case limitArg of None \<Rightarrow> MaxDistinctValues | Some l \<Rightarrow> l);
          st = countDistinctLoop limit (take (count vals) vals) initialDistinctState;
          nd = numDistinct st
      in \<lparr> countDistinct = nd,
           distinctValues = distinctCounts st,
           isCategorical =
             (case dataTypeOf (inferDataType vals) of
                DT_string \<Rightarrow> int nd \<le> limit
              | DT_integer \<Rightarrow> int nd \<le> limit
                   \<and> (js_eq (dMinValue st) (Fin 0) \<or> js_eq (dMinValue st) (Fin 1))
                   \<and> js_eq (js_sub (dMaxValue st) (dMinValue st)) (Fin (real_of_int (int nd - 1)))
              | _ \<Rightarrow> False) \<rparr>)"

section \<open>Edge encapsulation\<close>

text \<open>
  An edge list is a \<open>Uint32Array\<close> of flattened \<open>(src, dst)\<close> pairs; the model keeps it as a
  list of pairs, so \<open>edges[2*k]\<close> is \<open>fst (edges ! k)\<close>, \<open>edges[2*k + 1]\<close> is
  \<open>snd (edges ! k)\<close> and \<open>edges.length / 2\<close> is the length of the list. Elements of unsigned
  arrays are naturals, elements of \<open>Int32Array\<close>s are integers. The offsets, counts and
  point ids that the code stores are bounded by the lengths of the arrays; array lengths
  are taken to be below \<open>2^31\<close>, so these stores are exact; a negative \<open>Int32Array\<close>
  element (the sentinel \<open>-1\<close>) read into an unsigned array wraps.
\<close>

text \<open>An \<open>Int32Array\<close> element stored into a \<open>Uint32Array\<close>.\<close>

definition toUint32 :: "int \<Rightarrow> nat" where
  "toUint32 x = (if x < 0 then nat (x + 2 ^ 32) else nat x)"

text \<open>A read \<open>xs[i]\<close>: \<open>None\<close> is \<open>undefined\<close>, the value out of range.\<close>

definition lookupIndex :: "'a list \<Rightarrow> nat \<Rightarrow> 'a option" where
  "lookupIndex xs i = (if i < length xs then Some (xs ! i) else None)"

text \<open>A store \<open>xs[i] = v\<close> into a typed array: ignored out of range.\<close>

definition typedSet :: "'a list \<Rightarrow> int \<Rightarrow> 'a \<Rightarrow> 'a list" where
  "typedSet xs i v = (if 0 \<le> i \<and> nat i < length xs then xs[nat i := v] else xs)"

text \<open>
  \<open>computeEdgeList\<close>: the branch that reuses the previous encapsulation is disabled in the
  source (\<open>if (false && oldEncapsulated && masks)\<close>), so only \<open>edges\<close> is read. \<open>mapped\<close>
  starts as the identity and is sorted with the comparator
  \<open>edges[a*2] - edges[b*2] || edges[a*2 + 1] - edges[b*2 + 1]\<close>, the lexicographic order
  on \<open>(src, dst)\<close>; the sort is modelled by the stable \<open>sort_key\<close>. The sorted edge
  list is filled by copying one \<open>(src, dst)\<close> pair per step (through a 64-bit view of the
  two arrays).
\<close>

definition computeEdgeList :: "(nat \<times> nat) list \<Rightarrow> (nat \<times> nat) list \<times> nat list" where
  "computeEdgeList edges =
     (let mapped = sort_key (\<lambda>a. edges ! a) [0..<length edges];
          edgeListTyped = map (\<lambda>idx. edges ! idx) mapped
      in (edgeListTyped, mapped))"

text \<open>The inner \<open>while\<close> of \<open>computeWorkItemsTyped\<close>: returns \<open>(count, edgeListLastPos)\<close>.\<close>

function scanEdges :: "(nat \<times> nat) list \<Rightarrow> nat \<Rightarrow> nat \<Rightarrow> nat \<Rightarrow> nat \<times> nat" where
  "scanEdges edgesTyped i cnt edgeListLastPos =
     (if edgeListLastPos < length edgesTyped \<and> fst (edgesTyped ! edgeListLastPos) = i
      then scanEdges edgesTyped i (cnt + 1) (edgeListLastPos + 1)
      else (cnt, edgeListLastPos))"
  by pat_completeness auto
termination
  by (relation "measure (\<lambda>(es, i, cnt, pos). length es - pos)") auto

text \<open>
  The outer \<open>for\<close> loop from point \<open>i\<close> on. A work item is \<open>(first edge, number of edges,
  source)\<close>; the fourth slot of each item is never written. \<open>edgeListLastSrc\<close> is
  \<open>None\<close> when \<open>edgesTyped[0]\<close> is \<open>undefined\<close>.
\<close>

function workItemsFrom ::
  "(nat \<times> nat) list \<Rightarrow> nat \<Rightarrow> nat \<Rightarrow> nat \<Rightarrow> int option \<Rightarrow> (int \<times> int \<times> int) list" where
  "workItemsFrom edgesTyped numPoints i edgeListLastPos edgeListLastSrc =
     (if i < numPoints then
        (if edgeListLastSrc = Some (int i) then
           (let startingIdx = edgeListLastPos;
                scanned = scanEdges edgesTyped i 0 edgeListLastPos;
                pos = snd scanned;
                src = (if pos < length edgesTyped
                       then Some (int (fst (edgesTyped ! pos))) else Some (- 1))
            in (int startingIdx, int (fst scanned), int i)
                 # workItemsFrom edgesTyped numPoints (i + 1) pos src)
         else (- 1, 0, int i)
                 # workItemsFrom edgesTyped numPoints (i + 1) edgeListLastPos edgeListLastSrc)
      else [])"
  by pat_completeness auto
termination
  by (relation "measure (\<lambda>(es, n, i, pos, src). n - i)") auto

definition computeWorkItemsTyped :: "(nat \<times> nat) list \<Rightarrow> nat \<Rightarrow> (int \<times> int \<times> int) list" where
  "computeWorkItemsTyped edgesTyped numPoints =
     workItemsFrom edgesTyped numPoints 0 0
       (map_option (\<lambda>e. int (fst e)) (lookupIndex edgesTyped 0))"

text \<open>
  The invariant of \<open>edgeListLastSrc\<close>: the source of the edge at \<open>edgeListLastPos\<close>, or
  \<open>undefined\<close> or \<open>-1\<close> past the end.
\<close>

definition srcInv :: "(nat \<times> nat) list \<Rightarrow> nat \<Rightarrow> int option \<Rightarrow> bool" where
  "srcInv es pos src =
     (if pos < length es then src = Some (int (fst (es ! pos)))
      else src = None \<or> src = Some (- 1))"

text \<open>
  \<open>computeEdgeStartEndIdxs\<close>: one \<open>(start, end)\<close> pair per work item, stored unsigned.
  The inner \<open>while\<close> returns \<open>end\<close>.
\<close>

function skipGaps :: "(int \<times> int \<times> int) list \<Rightarrow> int \<Rightarrow> nat \<Rightarrow> int" where
  "skipGaps workItemsTyped end j =
     (if end < 0 \<and> j + 1 < length workItemsTyped
      then skipGaps workItemsTyped (fst (workItemsTyped ! (j + 1))) (j + 1)
      else end)"
  by pat_completeness auto
termination
  by (relation "measure (\<lambda>(ws, end, j). length ws - j)") auto

definition computeEdgeStartEndIdxs ::
  "(int \<times> int \<times> int) list \<Rightarrow> (nat \<times> nat) list \<Rightarrow> (nat \<times> nat) list" where
  "computeEdgeStartEndIdxs workItemsTyped edgesTyped =
     (let n = length workItemsTyped;
          body = map (\<lambda>i.
                   let start = fst (workItemsTyped ! i) in
                   if start = - 1 then (toUint32 (- 1), toUint32 (- 1))
                   else
                     let end0 = skipGaps workItemsTyped (fst (workItemsTyped ! (i + 1))) (i + 1);
                         end1 = (if end0 = - 1 then int (length edgesTyped) else end0)
                     in (toUint32 start, toUint32 end1))
                 [0..<n - 1];
          final = (if n = 0 then []
                   else if fst (workItemsTyped ! (n - 1)) \<noteq> - 1
                     then [(toUint32 (fst (workItemsTyped ! (n - 1))), length edgesTyped)]
                     else [(toUint32 (- 1), toUint32 (- 1))])
      in body @ final)"

text \<open>\<open>_.each(edgePermutationInverseTyped, function (val, i) { edgePermutationTyped[val] = i; })\<close>\<close>

definition invertPermutation :: "nat list \<Rightarrow> nat \<Rightarrow> nat list" where
  "invertPermutation edgePermutationInverseTyped n =
     fold (\<lambda>(i, val) perm. typedSet perm (int val) i)
       (zip [0..<length edgePermutationInverseTyped] edgePermutationInverseTyped)
       (replicate n 0)"

text \<open>The loop filling \<open>srcToWorkItem\<close> and \<open>degreesTyped\<close> from the work items.\<close>

definition degreesLoop :: "(int \<times> int \<times> int) list \<Rightarrow> nat \<Rightarrow> int list \<times> nat list" where
  "degreesLoop workItemsTyped numPoints =
     fold (\<lambda>i (s2w, deg).
             case workItemsTyped ! i of (start, cnt, src) \<Rightarrow>
               (typedSet s2w src (int i), typedSet deg src (toUint32 cnt)))
       [0..<numPoints]
       (replicate numPoints 0, replicate numPoints 0)"

record EdgeEncapsulation =
  degreesTyped :: "nat list"
  edgesTyped :: "(nat \<times> nat) list"
  edgePermutation :: "nat list"
  edgePermutationInverseTyped :: "nat list"
  numWorkItems :: nat
  workItemsTyped :: "(int \<times> int \<times> int) list"
  srcToWorkItem :: "int list"
  edgeStartEndIdxsTyped :: "(nat \<times> nat) list"

text \<open>
  \<open>encapsulateEdges(edges, numPoints, oldEncapsulated, masks, pointOriginalLookup)\<close>; the
  last three arguments are only passed on to the disabled branch of \<open>computeEdgeList\<close>.
\<close>

definition encapsulateEdges :: "(nat \<times> nat) list \<Rightarrow> nat \<Rightarrow> EdgeEncapsulation" where
  "encapsulateEdges edges numPoints =
     (let edgeListObj = computeEdgeList edges;
          sortedEdges = fst edgeListObj;
          originals = snd edgeListObj;
          permutation = invertPermutation originals (length sortedEdges);
          workItems = computeWorkItemsTyped sortedEdges numPoints;
          looped = degreesLoop workItems numPoints;
          startEndIdxs = computeEdgeStartEndIdxs workItems sortedEdges
      in \<lparr> degreesTyped = snd looped,
           edgesTyped = sortedEdges,
           edgePermutation = permutation,
           edgePermutationInverseTyped = originals,
           numWorkItems = 4 * length workItems,
           workItemsTyped = workItems,
           srcToWorkItem = fst looped,
           edgeStartEndIdxsTyped = startEndIdxs \<rparr>)"

section \<open>The dataframe and its masks\<close>

datatype componentType = Point | Edge

datatype error = TypeError | RangeError | InvalidHostBuffer string

text \<open>
  A column (\<open>{name, values, ...}\<close>, the field \<open>values\<close> as \<open>valuesOf\<close>) and the parts of
  \<open>DataframeData\<close> that the functions below read: the attribute columns by component type
  (an object, as a list of keys with their columns), the simulator's buffers by name
  (opaque handles), the host buffers and the element counts. Labels, local buffers and
  renderer buffers are not modelled.
\<close>

record 'v Column =
  name :: string
  valuesOf :: "'v list"

record HostBuffers =
  unsortedEdges :: "(nat \<times> nat) list option"
  forwardsEdges :: "EdgeEncapsulation option"
  backwardsEdges :: "EdgeEncapsulation option"

record 'v DataframeData =
  attributes :: "componentType \<Rightarrow> (string \<times> 'v Column) list"
  simulatorBuffers :: "string \<rightharpoonup> nat"
  hostBuffers :: HostBuffers
  numElements :: "componentType \<Rightarrow> nat"

text \<open>
  Modelled from the spec: \<open>DataframeMask\<close> (\<open>DataframeMask.js\<close> is not among the sources).
  A mask holds, per component type, an ordered sequence of global indices, or
  \<open>undefined\<close> (\<open>None\<close>) for the full range, which is computed from \<open>numElements\<close> of the
  owning dataframe. Its operations are read-only.
\<close>

record DataframeMask =
  point :: "nat list option"
  edge :: "nat list option"

text \<open>
  The dataframe: \<open>rawdata\<close>, \<open>data\<close> and \<open>lastMasks\<close>. \<open>lastMasks\<close> is an object that the
  dataframe creates once; \<open>lastMasksRef\<close> is its identity and \<open>lastMasks\<close> its current
  fields.
\<close>

record 'v Dataframe =
  rawdata :: "'v DataframeData"
  data :: "'v DataframeData"
  lastMasksRef :: nat
  lastMasks :: DataframeMask

definition numPoints :: "'v Dataframe \<Rightarrow> nat" where
  "numPoints df = numElements (rawdata df) Point"

definition numEdges :: "'v Dataframe \<Rightarrow> nat" where
  "numEdges df = numElements (rawdata df) Edge"

definition numByType :: "'v Dataframe \<Rightarrow> componentType \<Rightarrow> nat" where
  "numByType df componentType = numElements (rawdata df) componentType"

definition fullDataframeMask :: DataframeMask where
  "fullDataframeMask = \<lparr> point = None, edge = None \<rparr>"

text \<open>
  Modelled from the spec: \<open>mapPointIndexes(fn)\<close> and \<open>mapEdgeIndexes(fn)\<close> traverse the
  present indices and call \<open>fn(globalIndex, localPosition)\<close>. The model returns the
  global indices in the order of the traversal; the local position of an index is its
  position in that list.
\<close>

definition mapIndexes :: "'v Dataframe \<Rightarrow> DataframeMask \<Rightarrow> componentType \<Rightarrow> nat list" where
  "mapIndexes df msk componentType =
     (case (case componentType of Point \<Rightarrow> point msk | Edge \<Rightarrow> edge msk) of
        None \<Rightarrow> [0..<numByType df componentType]
      | Some idxs \<Rightarrow> idxs)"

definition mapPointIndexes :: "'v Dataframe \<Rightarrow> DataframeMask \<Rightarrow> nat list" where
  "mapPointIndexes df msk = mapIndexes df msk Point"

definition mapEdgeIndexes :: "'v Dataframe \<Rightarrow> DataframeMask \<Rightarrow> nat list" where
  "mapEdgeIndexes df msk = mapIndexes df msk Edge"

text \<open>Modelled from the spec: \<open>numPoints()\<close> and \<open>numEdges()\<close> of a mask, the yielded counts.\<close>

definition maskNumPoints :: "'v Dataframe \<Rightarrow> DataframeMask \<Rightarrow> nat" where
  "maskNumPoints df msk = length (mapPointIndexes df msk)"

definition maskNumEdges :: "'v Dataframe \<Rightarrow> DataframeMask \<Rightarrow> nat" where
  "maskNumEdges df msk = length (mapEdgeIndexes df msk)"

text \<open>
  Modelled from the spec: \<open>getIndexByType(type, localIndex)\<close> translates a local position
  back to a global index, the identity if the mask is full. An index is \<open>None\<close> when it
  is \<open>undefined\<close>.
\<close>

definition getIndexByType ::
  "DataframeMask \<Rightarrow> componentType \<Rightarrow> nat option \<Rightarrow> nat option" where
  "getIndexByType msk componentType localIndex =
     (case (case componentType of Point \<Rightarrow> point msk | Edge \<Rightarrow> edge msk) of
        None \<Rightarrow> localIndex
      | Some idxs \<Rightarrow> (case localIndex of None \<Rightarrow> None | Some i \<Rightarrow> lookupIndex idxs i))"

subsection \<open>\<open>pruneMaskEdges\<close>\<close>

text \<open>
  \<open>pointMaskOriginalLookup\<close> is an object used as a set of point indices (every stored
  value is \<open>1\<close>). An edge index beyond the edge array reads \<open>undefined\<close> endpoints, which
  are not in the lookup.
\<close>

definition pruneMaskEdges :: "'v Dataframe \<Rightarrow> DataframeMask \<Rightarrow> error + DataframeMask" where
  "pruneMaskEdges df oldMask =
     (let pointMaskOriginalLookup =
            fold (\<lambda>idx lookup. lookup(idx \<mapsto> (1::nat))) (mapPointIndexes df oldMask) Map.empty
      in case forwardsEdges (hostBuffers (rawdata df)) of
           None \<Rightarrow> Inl TypeError
         | Some fwd \<Rightarrow>
             let edges = edgesTyped fwd;
                 edgeMask =
                   fold (\<lambda>edgeIdx acc.
                           let src = map_option fst (lookupIndex edges edgeIdx);
                               dst = map_option snd (lookupIndex edges edgeIdx);
                               newSrc = Option.bind src pointMaskOriginalLookup;
                               newDst = Option.bind dst pointMaskOriginalLookup
                           in if newSrc = Some 1 \<and> newDst = Some 1
                              then acc @ [edgeIdx] else acc)
                     (mapEdgeIndexes df oldMask) []
             in Inr \<lparr> point = point oldMask, edge = Some edgeMask \<rparr>)"

subsection \<open>\<open>composeMasks\<close>\<close>

text \<open>
  \<open>limits\<close> is an object with an optional number per component type. The function
  writes \<open>Infinity\<close> into the missing entries of the object it was given.
\<close>

record Limits =
  pointLimit :: "jsnum option"
  edgeLimit :: "jsnum option"

definition defaultLimits :: "Limits option \<Rightarrow> Limits" where
  "defaultLimits limits =
     (let l = (case limits of None \<Rightarrow> \<lparr> pointLimit = Some PosInf, edgeLimit = Some PosInf \<rparr>
                             | Some l \<Rightarrow> l)
      in \<lparr> pointLimit = (case pointLimit l of None \<Rightarrow> Some PosInf | Some x \<Rightarrow> Some x),
           edgeLimit = (case edgeLimit l of None \<Rightarrow> Some PosInf | Some x \<Rightarrow> Some x) \<rparr>)"

text \<open>\<open>numMasksSatisfiedByID[idx]++\<close> on a \<open>Uint8Array\<close>, and \<open>numMasksSatisfiedByID[idx] = 0\<close>.\<close>

definition incrementAt :: "nat list \<Rightarrow> nat \<Rightarrow> nat list" where
  "incrementAt counters idx =
     (if idx < length counters then counters[idx := (counters ! idx + 1) mod 256] else counters)"

definition zeroAt :: "nat list \<Rightarrow> nat \<Rightarrow> nat list" where
  "zeroAt counters idx = (if idx < length counters then counters[idx := 0] else counters)"

text \<open>
  The limit that \<open>targetMask.length >= limit\<close> compares with; the comparison with a
  missing limit is false, as it is with \<open>Infinity\<close>.
\<close>

definition limitBound :: "jsnum option \<Rightarrow> jsnum" where
  "limitBound limit = (case limit of None \<Rightarrow> PosInf | Some l \<Rightarrow> l)"

text \<open>
  The loop that collects the indices whose counter equals \<open>numMasks\<close>, from index \<open>i\<close> on,
  with its \<open>break\<close> once the result has reached the limit.
\<close>

function collectSatisfied :: "nat list \<Rightarrow> nat \<Rightarrow> jsnum \<Rightarrow> nat \<Rightarrow> nat list \<Rightarrow> nat list" where
  "collectSatisfied numMasksSatisfiedByID numMasks limit i targetMask =
     (if i < length numMasksSatisfiedByID then
        (let pushed = (if numMasksSatisfiedByID ! i = numMasks
                       then targetMask @ [i] else targetMask)
         in if js_ge (Fin (real (length pushed))) limit then pushed
            else collectSatisfied numMasksSatisfiedByID numMasks limit (i + 1) pushed)
      else targetMask)"
  by pat_completeness auto
termination
  by (relation "measure (\<lambda>(cs, m, l, i, t). length cs - i)") auto

text \<open>
  The result of a call: the returned mask, and the state after the call of the three
  arguments, which are objects of the caller. \<open>selectionMasks.length = 255\<close> truncates the
  array that the variable refers to: the caller's array, unless the array was empty and
  the variable was rebound to the one-element array of the full mask.
\<close>

record ComposeResult =
  result :: DataframeMask
  selectionMasksAfter :: "DataframeMask list"
  exclusionMasksAfter :: "DataframeMask list"
  limitsAfter :: "Limits option"

definition MASK_LIMIT :: nat where
  "MASK_LIMIT = 255"

definition composeMasks ::
  "'v Dataframe \<Rightarrow> DataframeMask list \<Rightarrow> DataframeMask list \<Rightarrow> Limits option \<Rightarrow> ComposeResult" where
  "composeMasks df selectionMasks exclusionMasks limits =
     (let limits1 = defaultLimits limits;
          selection1 = (if length selectionMasks = 0 then [fullDataframeMask] else selectionMasks);
          numMasks = length selection1;
          selection2 = (if numMasks > MASK_LIMIT then take 255 selection1 else selection1);
          selected = fold (\<lambda>msk (pointCounters, edgeCounters).
                             (fold (\<lambda>idx cs. incrementAt cs idx) (mapPointIndexes df msk) pointCounters,
                              fold (\<lambda>idx cs. incrementAt cs idx) (mapEdgeIndexes df msk) edgeCounters))
                       selection2
                       (replicate (numPoints df) 0, replicate (numEdges df) 0);
          excluded = fold (\<lambda>msk (pointCounters, edgeCounters).
                             (fold (\<lambda>idx cs. zeroAt cs idx) (mapPointIndexes df msk) pointCounters,
                              fold (\<lambda>idx cs. zeroAt cs idx) (mapEdgeIndexes df msk) edgeCounters))
                       exclusionMasks selected;
          pointResult = collectSatisfied (fst excluded) numMasks (limitBound (pointLimit limits1)) 0 [];
          edgeResult = collectSatisfied (snd excluded) numMasks (limitBound (edgeLimit limits1)) 0 []
      in \<lparr> result = \<lparr> point = Some pointResult, edge = Some edgeResult \<rparr>,
           selectionMasksAfter =
             (if length selectionMasks = 0 then selectionMasks else selection2),
           exclusionMasksAfter = exclusionMasks,
           limitsAfter = (case limits of None \<Rightarrow> None | Some l \<Rightarrow> Some limits1) \<rparr>)"

text \<open>A call without finite limits: no \<open>limits\<close> object, or entries that are missing or \<open>Infinity\<close>.\<close>

definition unlimited :: "Limits option \<Rightarrow> bool" where
  "unlimited limits =
     (case limits of
        None \<Rightarrow> True
      | Some l \<Rightarrow> (pointLimit l = None \<or> pointLimit l = Some PosInf)
                 \<and> (edgeLimit l = None \<or> edgeLimit l = Some PosInf))"

subsection \<open>\<open>getRowAt\<close>\<close>

text \<open>\<open>getHostBuffer('forwardsEdges')\<close>: the buffer of the current data, or the error thrown.\<close>

definition getHostBufferForwardsEdges :: "'v Dataframe \<Rightarrow> error + EdgeEncapsulation" where
  "getHostBufferForwardsEdges df =
     (case forwardsEdges (hostBuffers (data df)) of
        None \<Rightarrow> Inl (InvalidHostBuffer ''forwardsEdges'')
      | Some res \<Rightarrow> Inr res)"

text \<open>
  A row: the value of every requested attribute at the index (\<open>None\<close> for \<open>undefined\<close>),
  and \<open>_index\<close>.
\<close>

record 'v Row =
  cells :: "(string \<times> 'v option) list"
  rowIndex :: nat

text \<open>
  The loop over the attribute keys: \<open>row[key] = attributes[key].values[index]\<close>, where
  \<open>attributes\<close> defaults to the raw attributes of the component type.
\<close>

definition readRow ::
  "'v Dataframe \<Rightarrow> (string \<times> 'v Column) list option \<Rightarrow> componentType \<Rightarrow> nat option
     \<Rightarrow> (string \<times> 'v option) list" where
  "readRow df attributesArg componentType globalIndex =
     map (\<lambda>(key, column). (key, Option.bind globalIndex (lookupIndex (valuesOf column))))
       (case attributesArg of None \<Rightarrow> attributes (rawdata df) componentType | Some a \<Rightarrow> a)"

text \<open>
  \<open>getRowAt(index, type, attributes)\<close> for an index that is a natural number; the test
  \<open>index && type === 'edge'\<close> is false at 0 and true at every other index.
\<close>

definition getRowAt ::
  "'v Dataframe \<Rightarrow> nat \<Rightarrow> componentType \<Rightarrow> (string \<times> 'v Column) list option
     \<Rightarrow> error + 'v Row" where
  "getRowAt df index componentType attributesArg =
     (let origIndex = index;
          translated =
            (if index \<noteq> 0 \<and> componentType = Edge then
               (case getHostBufferForwardsEdges df of
                  Inl e \<Rightarrow> Inl e
                | Inr fwd \<Rightarrow> Inr (lookupIndex (edgePermutationInverseTyped fwd) index))
             else Inr (Some index))
      in case translated of
           Inl e \<Rightarrow> Inl e
         | Inr unsortedIndex \<Rightarrow>
             let globalIndex = getIndexByType (lastMasks df) componentType unsortedIndex
             in Inr \<lparr> cells = readRow df attributesArg componentType globalIndex,
                      rowIndex = origIndex \<rparr>)"

subsection \<open>\<open>applyDataframeMaskToFilterInPlace\<close>\<close>

text \<open>\<open>simulator.versions\<close>: a counter per buffer name, and the tick.\<close>

record Versions =
  versionBuffers :: "string \<rightharpoonup> nat"
  tick :: nat

text \<open>
  The value of a settled promise: resolved with a value, or rejected. The function
  resolves with \<open>false\<close> (\<open>Q(false)\<close>) or, at the end of its chain, with \<open>undefined\<close>.
\<close>

datatype 'a promise = Resolved 'a | Rejected

datatype filterValue = VFalse | VUndefined

text \<open>
  The pass gathers local buffers and reads and writes the simulator's GPU buffers; their
  contents are not modelled. What the model needs from them is a parameter: whether the
  synchronous gathers from the local buffers run without an exception, whether the
  promises of the reads, of the position update and of the writes resolve, and which
  buffers \<open>this.filteredBufferCache.simulator\<close> holds.
\<close>

record FilterHost =
  localBuffersReady :: bool
  readsResolve :: bool
  positionsResolve :: bool
  writesResolve :: bool
  filteredBufferCache :: "string \<rightharpoonup> nat"

definition someBufferPropertyNames :: "string list" where
  "someBufferPropertyNames =
     [''curPoints'', ''prevForces'', ''degrees'', ''forwardsEdges'', ''forwardsDegrees'',
      ''forwardsWorkItems'', ''forwardsEdgeStartEndIdxs'', ''backwardsEdges'',
      ''backwardsDegrees'', ''backwardsWorkItems'', ''backwardsEdgeStartEndIdxs'',
      ''springsPos'', ''forwardsEdgeWeights'', ''backwardsEdgeWeights'']"

text \<open>A store of \<open>undefined\<close> into a \<open>Uint32Array\<close> writes 0.\<close>

definition undefinedAsZero :: "nat option \<Rightarrow> nat" where
  "undefinedAsZero v = (case v of None \<Rightarrow> 0 | Some x \<Rightarrow> x)"

text \<open>
  The mask with its edges translated to unsorted indices through the inverse
  permutation of the raw forwards edges, and sorted ascending.
\<close>

definition unsortedMasksOf :: "'v Dataframe \<Rightarrow> EdgeEncapsulation \<Rightarrow> DataframeMask \<Rightarrow> DataframeMask" where
  "unsortedMasksOf df rawForwards masks =
     (let permInverse = edgePermutationInverseTyped rawForwards;
          unsortedEdgeMask =
            sort (map (\<lambda>edgeIndex. undefinedAsZero (lookupIndex permInverse edgeIndex))
                    (mapEdgeIndexes df masks))
      in \<lparr> point = point masks, edge = Some unsortedEdgeMask \<rparr>)"

text \<open>
  \<open>filteredEdges\<close>: the endpoints of the kept unsorted edges, renumbered through
  \<open>pointOriginalLookup\<close> (global point index to local position).
\<close>

definition filterEdges ::
  "'v Dataframe \<Rightarrow> DataframeMask \<Rightarrow> nat list \<Rightarrow> (nat \<times> nat) list \<Rightarrow> (nat \<times> nat) list" where
  "filterEdges df masks unsortedEdgeMask originalEdges =
     (let pointOriginalLookup =
            fold (\<lambda>(i, pointIndex) lookup. lookup(pointIndex \<mapsto> i))
              (zip [0..<maskNumPoints df masks] (mapPointIndexes df masks)) Map.empty
      in map (\<lambda>oldIdx.
                (undefinedAsZero (Option.bind (map_option fst (lookupIndex originalEdges oldIdx))
                                    pointOriginalLookup),
                 undefinedAsZero (Option.bind (map_option snd (lookupIndex originalEdges oldIdx))
                                    pointOriginalLookup)))
           unsortedEdgeMask)"

text \<open>
  The synchronous part of the pass: the new data and the unsorted mask, or the exception
  thrown. A view of a scratch array that is longer than the array raises \<open>RangeError\<close>;
  a property read on a missing buffer raises \<open>TypeError\<close>. The simulator buffers of the
  new data are those of the filtered-buffer cache for the fourteen property names, and
  the raw ones where the new data has none.
\<close>

definition buildFilteredData ::
  "FilterHost \<Rightarrow> 'v Dataframe \<Rightarrow> DataframeMask \<Rightarrow> error + ('v DataframeData \<times> DataframeMask)" where
  "buildFilteredData host df masks =
     (let newNumPoints = maskNumPoints df masks;
          newNumEdges = maskNumEdges df masks;
          oldNumPoints = numPoints df;
          oldNumEdges = numEdges df;
          rawSimBuffers = simulatorBuffers (rawdata df)
      in if oldNumEdges < newNumEdges then Inl RangeError
         else case forwardsEdges (hostBuffers (rawdata df)) of
           None \<Rightarrow> Inl TypeError
         | Some rawForwards \<Rightarrow>
             let unsortedMasks = unsortedMasksOf df rawForwards masks;
                 unsortedEdgeMask = mapEdgeIndexes df unsortedMasks;
                 originalEdges = unsortedEdges (hostBuffers (rawdata df))
             in if originalEdges = None \<and> unsortedEdgeMask \<noteq> [] then Inl TypeError
                else
                  let filteredEdges = filterEdges df masks unsortedEdgeMask
                                        (case originalEdges of None \<Rightarrow> [] | Some es \<Rightarrow> es);
                      edgesFlipped = map (\<lambda>(s, d). (d, s)) filteredEdges;
                      newForwards = encapsulateEdges filteredEdges newNumPoints;
                      newBackwards = encapsulateEdges edgesFlipped newNumPoints
                  in if oldNumPoints < newNumPoints then Inl RangeError
                     else if \<not> localBuffersReady host then Inl TypeError
                     else if rawSimBuffers ''prevForces'' = None
                             \<or> rawSimBuffers ''springsPos'' = None
                             \<or> simulatorBuffers (data df) ''curPoints'' = None then Inl TypeError
                     else Inr
                       (\<lparr> attributes = (\<lambda>t. []),
                          simulatorBuffers =
                            (\<lambda>key. case (if key \<in> set someBufferPropertyNames
                                            then filteredBufferCache host key else None) of
                                      None \<Rightarrow> rawSimBuffers key
                                    | Some b \<Rightarrow> Some b),
                          hostBuffers = \<lparr> unsortedEdges = Some filteredEdges,
                                          forwardsEdges = Some newForwards,
                                          backwardsEdges = Some newBackwards \<rparr>,
                          numElements = (numElements (rawdata df))
                                          (Point := newNumPoints, Edge := newNumEdges) \<rparr>,
                        unsortedMasks))"

text \<open>
  The end of the promise chain: every buffer version and the tick are incremented, the
  fields of the dataframe's \<open>lastMasks\<close> object are overwritten with those of the
  unsorted mask, and \<open>data\<close> becomes the new data.
\<close>

definition bumpVersions :: "Versions \<Rightarrow> Versions" where
  "bumpVersions versions =
     \<lparr> versionBuffers = (\<lambda>key. map_option (\<lambda>n. n + 1) (versionBuffers versions key)),
       tick = tick versions + 1 \<rparr>"

text \<open>
  \<open>masksRef\<close> is the identity of the mask object passed in; \<open>maskStore\<close> gives the fields
  of the mask objects other than the dataframe's own \<open>lastMasks\<close>. The result is the
  exception thrown, or the settled promise with the dataframe and the versions after
  the call.
\<close>

definition applyDataframeMaskToFilterInPlace ::
  "FilterHost \<Rightarrow> (nat \<Rightarrow> DataframeMask) \<Rightarrow> 'v Dataframe \<Rightarrow> Versions \<Rightarrow> nat
     \<Rightarrow> error + (filterValue promise \<times> 'v Dataframe \<times> Versions)" where
  "applyDataframeMaskToFilterInPlace host maskStore df versions masksRef =
     (if masksRef = lastMasksRef df then Inr (Resolved VFalse, df, versions)
      else
        let rawSimBuffers = simulatorBuffers (rawdata df) in
        if rawSimBuffers ''forwardsEdgeWeights'' = None
           \<or> rawSimBuffers ''backwardsEdgeWeights'' = None
        then Inr (Resolved VFalse, df, versions)
        else
          case buildFilteredData host df (maskStore masksRef) of
            Inl e \<Rightarrow> Inl e
          | Inr (newData, unsortedMasks) \<Rightarrow>
              if \<not> readsResolve host \<or> \<not> positionsResolve host
              then Inr (Rejected, df, versions)
              else if \<not> list_all (\<lambda>key. filteredBufferCache host key \<noteq> None)
                                   someBufferPropertyNames
                      \<or> \<not> writesResolve host
              then Inr (Rejected, df, versions)
              else Inr (Resolved VUndefined,
                        df\<lparr>lastMasks := unsortedMasks, data := newData\<rparr>,
                        bumpVersions versions))"

subsection \<open>The scenario dataset\<close>

text \<open>
  A raw dataset of 4 points and the 3 edges \<open>(0,1), (1,2), (2,3)\<close>, unfiltered: \<open>data\<close> is
  \<open>rawdata\<close> and the last mask is the full one.
\<close>

definition exampleEdges :: "(nat \<times> nat) list" where
  "exampleEdges = [(0, 1), (1, 2), (2, 3)]"

definition exampleData :: "unit DataframeData" where
  "exampleData =
     \<lparr> attributes = (\<lambda>_. []), simulatorBuffers = Map.empty,
       hostBuffers = \<lparr> unsortedEdges = Some exampleEdges,
                       forwardsEdges = Some (encapsulateEdges exampleEdges 4),
                       backwardsEdges = Some (encapsulateEdges (map (\<lambda>(s, d). (d, s)) exampleEdges) 4) \<rparr>,
       numElements = (\<lambda>t. case t of Point \<Rightarrow> 4 | Edge \<Rightarrow> 3) \<rparr>"

definition exampleFrame :: "unit Dataframe" where
  "exampleFrame =
     \<lparr> rawdata = exampleData, data = exampleData, lastMasksRef = 0, lastMasks = fullDataframeMask \<rparr>"

text \<open>
  A dataset of 2 points whose 2 edges are stored against the sorted order, with one edge
  attribute; its sort exchanges the two edges.
\<close>

definition swappedEdges :: "(nat \<times> nat) list" where
  "swappedEdges = [(1, 0), (0, 1)]"

definition swappedData :: "nat DataframeData" where
  "swappedData =
     \<lparr> attributes = (\<lambda>t. case t of
                          Point \<Rightarrow> []
                        | Edge \<Rightarrow> [(''weight'', \<lparr> name = ''weight'', valuesOf = [10, 20] \<rparr>)]),
       simulatorBuffers = Map.empty,
       hostBuffers = \<lparr> unsortedEdges = Some swappedEdges,
                       forwardsEdges = Some (encapsulateEdges swappedEdges 2),
                       backwardsEdges = Some (encapsulateEdges (map (\<lambda>(s, d). (d, s)) swappedEdges) 2) \<rparr>,
       numElements = (\<lambda>t. 2) \<rparr>"

definition swappedFrame :: "nat Dataframe" where
  "swappedFrame =
     \<lparr> rawdata = swappedData, data = swappedData, lastMasksRef = 0, lastMasks = fullDataframeMask \<rparr>"

subsection \<open>A filtering scenario\<close>

text \<open>
  The 4-point dataset with its simulator buffers populated, a host on which every step
  succeeds, and a caller whose mask objects (of identities other than that of the
  dataframe's \<open>lastMasks\<close>, which is 0) are all full masks. \<open>firstPass\<close> filters with the
  mask object 1, \<open>secondPass\<close> filters again with the same object.
\<close>

definition readyBuffers :: "string \<rightharpoonup> nat" where
  "readyBuffers =
     [''prevForces'' \<mapsto> 0, ''springsPos'' \<mapsto> 1, ''forwardsEdgeWeights'' \<mapsto> 2,
      ''backwardsEdgeWeights'' \<mapsto> 3, ''curPoints'' \<mapsto> 4]"

definition readyFrame :: "unit Dataframe" where
  "readyFrame =
     \<lparr> rawdata = exampleData\<lparr>simulatorBuffers := readyBuffers\<rparr>,
       data = exampleData\<lparr>simulatorBuffers := readyBuffers\<rparr>,
       lastMasksRef = 0, lastMasks = fullDataframeMask \<rparr>"

definition readyHost :: FilterHost where
  "readyHost =
     \<lparr> localBuffersReady = True, readsResolve = True, positionsResolve = True,
       writesResolve = True, filteredBufferCache = (\<lambda>key. Some 10) \<rparr>"

definition callerMasks :: "nat \<Rightarrow> DataframeMask" where
  "callerMasks ref = fullDataframeMask"

definition startVersions :: Versions where
  "startVersions = \<lparr> versionBuffers = [''curPoints'' \<mapsto> 0], tick = 0 \<rparr>"

definition firstPass :: "error + (filterValue promise \<times> unit Dataframe \<times> Versions)" where
  "firstPass = applyDataframeMaskToFilterInPlace readyHost callerMasks readyFrame startVersions 1"

definition secondPass :: "error + (filterValue promise \<times> unit Dataframe \<times> Versions)" where
  "secondPass =
     (case firstPass of
        Inl e \<Rightarrow> Inl e
      | Inr (settled, df1, versions1) \<Rightarrow>
          applyDataframeMaskToFilterInPlace readyHost callerMasks df1 versions1 1)"

text \<open>How a call settled, and the tick and the version of a buffer after it.\<close>

definition settledAs ::
  "error + (filterValue promise \<times> 'v Dataframe \<times> Versions) \<Rightarrow> filterValue promise option" where
  "settledAs r = (case r of Inl e \<Rightarrow> None | Inr (settled, df, versions) \<Rightarrow> Some settled)"

definition tickAfter ::
  "error + (filterValue promise \<times> 'v Dataframe \<times> Versions) \<Rightarrow> nat option" where
  "tickAfter r = (case r of Inl e \<Rightarrow> None | Inr (settled, df, versions) \<Rightarrow> Some (tick versions))"

definition versionAfter ::
  "error + (filterValue promise \<times> 'v Dataframe \<times> Versions) \<Rightarrow> string \<Rightarrow> nat option" where
  "versionAfter r key =
     (case r of Inl e \<Rightarrow> None | Inr (settled, df, versions) \<Rightarrow> versionBuffers versions key)"

section \<open>Binning and histograms\<close>

text \<open>
  \<open>Math.floor\<close> and \<open>Math.ceil\<close>, and \<open>x | 0\<close>: the conversion to a 32-bit integer, which
  truncates towards zero, wraps modulo \<open>2^32\<close> and maps NaN and the infinities to 0.
\<close>

fun js_floor :: "jsnum \<Rightarrow> jsnum" where
  "js_floor (Fin x) = Fin (of_int \<lfloor>x\<rfloor>)"
| "js_floor v = v"

fun js_ceil :: "jsnum \<Rightarrow> jsnum" where
  "js_ceil (Fin x) = Fin (of_int \<lceil>x\<rceil>)"
| "js_ceil v = v"

fun toInt32 :: "jsnum \<Rightarrow> int" where
  "toInt32 (Fin x) =
     (let t = (if x < 0 then \<lceil>x\<rceil> else \<lfloor>x\<rfloor>); m = t mod 2 ^ 32
      in if m \<ge> 2 ^ 31 then m - 2 ^ 32 else m)"
| "toInt32 _ = 0"

definition round_down :: "jsnum \<Rightarrow> jsnum \<Rightarrow> jsnum" where
  "round_down num multiple =
     (if js_eq multiple (Fin 0) then num else js_mul multiple (js_floor (js_div num multiple)))"

definition round_up :: "jsnum \<Rightarrow> jsnum \<Rightarrow> jsnum" where
  "round_up num multiple =
     (if js_eq multiple (Fin 0) then num else js_mul multiple (js_ceil (js_div num multiple)))"

text \<open>
  \<open>Math.ceil(Math.log(n) / Math.log(2))\<close> and \<open>Math.ceil(Math.sqrt(n))\<close> on a count \<open>n\<close>,
  as the exact integer functions.
\<close>

definition ceilLog2 :: "nat \<Rightarrow> nat" where
  "ceilLog2 n = (case find (\<lambda>k. n \<le> 2 ^ k) [0..<Suc n] of Some k \<Rightarrow> k | None \<Rightarrow> n)"

definition ceilSqrt :: "nat \<Rightarrow> nat" where
  "ceilSqrt n = (case find (\<lambda>k. n \<le> k * k) [0..<Suc n] of Some k \<Rightarrow> k | None \<Rightarrow> n)"

record Binning =
  numBins :: jsnum
  binWidth :: jsnum
  isCountBy :: "bool option"
  binMinValue :: jsnum
  binMaxValue :: jsnum

definition defaultBinning :: Binning where
  "defaultBinning =
     \<lparr> numBins = Fin 1, binWidth = Fin 1, isCountBy = None,
       binMinValue = NegInf, binMaxValue = PosInf \<rparr>"

text \<open>
  The two \<open>while\<close> loops of \<open>calculateBinning\<close>, each returning \<open>(binWidth, numBins)\<close>;
  \<open>None\<close> is a loop that does not end.
\<close>

partial_function (option) roughWidth :: "jsnum \<Rightarrow> jsnum \<Rightarrow> jsnum \<Rightarrow> (jsnum \<times> jsnum) option" where
  "roughWidth valueRange width bins =
     (if js_lt bins (Fin 2) \<or> js_ge bins (Fin 100) then
        (let width' = (if js_lt bins (Fin 2) then js_mul width (Fin (1 / 10))
                       else js_mul width (Fin 10))
         in roughWidth valueRange width' (js_div valueRange width'))
      else Some (width, bins))"

partial_function (option) refineWidth ::
  "jsnum \<Rightarrow> jsnum \<Rightarrow> jsnum \<Rightarrow> jsnum \<Rightarrow> jsnum \<Rightarrow> (jsnum \<times> jsnum) option" where
  "refineWidth valueRange minBins goalBins width bins =
     (if js_lt bins minBins \<or> js_gt bins goalBins then
        (let width' = (if js_lt bins minBins then js_div width (Fin 2)
                       else js_mul width (Fin 2))
         in refineWidth valueRange minBins goalBins width' (js_div valueRange width'))
      else Some (width, bins))"

text \<open>
  \<open>calculateBinning(aggregations, numValues, goalNumberOfBins)\<close> on the column \<open>vals\<close> of
  the aggregations. A column of numbers is classified numeric, so its \<open>minValue\<close> and
  \<open>maxValue\<close> are those of \<open>fixedAllocationNumericAggregations\<close>, and its
  \<open>countDistinct\<close> is that of \<open>countDistinct(500)\<close>. A goal that is missing, 0 or NaN is
  falsy.
\<close>

definition truthy :: "jsnum option \<Rightarrow> bool" where
  "truthy v = (case v of None \<Rightarrow> False | Some x \<Rightarrow> \<not> isNaN x \<and> x \<noteq> Fin 0)"

definition calculateBinning :: "jsnum list \<Rightarrow> nat \<Rightarrow> jsnum option \<Rightarrow> Binning option" where
  "calculateBinning vals numValues goalNumberOfBins =
     (let maxBinCount = 30;
          goalBins0 = (if numValues > maxBinCount then ceilLog2 numValues + 1
                       else ceilSqrt numValues);
          goalBins = max (min goalBins0 maxBinCount) 8;
          mx = maxValue (fixedAllocationNumericAggregations vals);
          mn = minValue (fixedAllocationNumericAggregations vals);
          valueRange = js_sub mx mn
      in if countDistinct (countDistinctAgg (Some 500) vals) < maxBinCount
            \<and> isIntegral (inferDataType vals)
         then Some \<lparr> numBins = Fin (real numValues),
                      binWidth = js_div valueRange (js_sub (Fin (real numValues)) (Fin 1)),
                      isCountBy = Some (js_lt valueRange (Fin (real maxBinCount))
                                        \<or> js_eq valueRange (Fin (real maxBinCount))),
                      binMinValue = mn, binMaxValue = mx \<rparr>
         else if truthy goalNumberOfBins
         then (case goalNumberOfBins of
                 None \<Rightarrow> None
               | Some goal \<Rightarrow>
                   Some \<lparr> numBins = goal,
                          binWidth = js_div valueRange (js_sub goal (Fin 1)),
                          isCountBy = None, binMinValue = mn, binMaxValue = mx \<rparr>)
         else
           if js_eq mn PosInf \<or> js_eq mx NegInf \<or> js_lt (js_div valueRange (Fin 10)) (Fin 0)
           then Some defaultBinning
           else
             case roughWidth valueRange (Fin 10) (js_div valueRange (Fin 10)) of
               None \<Rightarrow> None
             | Some (width1, bins1) \<Rightarrow>
                 (case refineWidth valueRange (Fin (real (max 3 (goalBins div 2 - 1))))
                         (Fin (real goalBins)) width1 bins1 of
                    None \<Rightarrow> None
                  | Some (width2, bins2) \<Rightarrow>
                      let bottomVal = round_down mn width2;
                          topVal = round_up mx width2
                      in Some \<lparr> numBins = js_add (js_floor (js_div (js_sub topVal bottomVal) width2))
                                                 (Fin 1),
                                binWidth = width2, isCountBy = None,
                                binMinValue = bottomVal, binMaxValue = topVal \<rparr>))"

text \<open>
  The bin of a value: \<open>((value - bottomVal) / binWidth) | 0\<close>.
\<close>

definition binIdOf :: "jsnum \<Rightarrow> jsnum \<Rightarrow> jsnum \<Rightarrow> int" where
  "binIdOf bottomVal width v = toInt32 (js_div (js_sub v bottomVal) width)"

text \<open>
  \<open>bins\<close> is an ordinary array: a map from index to count, with the entries
  \<open>0 .. numBins - 1\<close> set to 0 at the start. \<open>bins[binId]++\<close> on an index that has no entry
  reads \<open>undefined\<close> and stores NaN there. A bin's value is unset, a value or \<open>null\<close>.
\<close>

datatype binValue = Null | Value jsnum

record BinState =
  bins :: "int \<rightharpoonup> jsnum"
  binValues :: "int \<rightharpoonup> binValue"

fun histogramLoop :: "jsnum list \<Rightarrow> jsnum \<Rightarrow> jsnum \<Rightarrow> nat list \<Rightarrow> BinState \<Rightarrow> BinState" where
  "histogramLoop vals bottomVal width [] st = st"
| "histogramLoop vals bottomVal width (idx # indices) st =
     (case lookupIndex vals idx of
        None \<Rightarrow> histogramLoop vals bottomVal width indices st
      | Some v \<Rightarrow>
          if numberSignifiesUndefined v then histogramLoop vals bottomVal width indices st
          else
            let binId = binIdOf bottomVal width v;
                counted = (bins st)(binId \<mapsto>
                             js_add (case bins st binId of None \<Rightarrow> NaN | Some c \<Rightarrow> c) (Fin 1));
                valued = (case binValues st binId of
                            None \<Rightarrow> (binValues st)(binId \<mapsto> Value v)
                          | Some (Value w) \<Rightarrow>
                              if js_eq w v then binValues st else (binValues st)(binId \<mapsto> Null)
                          | Some Null \<Rightarrow> binValues st)
            in histogramLoop vals bottomVal width indices \<lparr> bins = counted, binValues = valued \<rparr>)"

text \<open>
  The length of \<open>new Array(n)\<close>: \<open>n\<close> has to be an integer from 0 to \<open>2^32 - 1\<close>, or the
  constructor raises \<open>RangeError\<close>. \<open>new Float32Array(n)\<close> raises it when \<open>n\<close> truncates to
  a negative integer or is infinite.
\<close>

fun arrayLength :: "jsnum \<Rightarrow> nat option" where
  "arrayLength (Fin x) =
     (if x = of_int \<lfloor>x\<rfloor> \<and> 0 \<le> x \<and> x < 2 ^ 32 then Some (nat \<lfloor>x\<rfloor>) else None)"
| "arrayLength _ = None"

fun typedArrayLengthOk :: "jsnum \<Rightarrow> bool" where
  "typedArrayLengthOk (Fin x) = (- 1 < x)"
| "typedArrayLengthOk NaN = True"
| "typedArrayLengthOk _ = False"

record HistogramData =
  isCountByType :: bool
  histNumBins :: jsnum
  histBinWidth :: jsnum
  histNumValues :: nat
  histMaxValue :: jsnum
  histMinValue :: jsnum
  histBins :: "int \<rightharpoonup> jsnum"
  histBinValues :: "(int \<rightharpoonup> binValue) option"

datatype histogramResult = NoData | Histogram HistogramData

text \<open>
  \<open>histogram(attribute, binning, goalNumberOfBins, indices, type, dataType)\<close> on the
  values \<open>vals\<close> of the attribute's column in the current data. The result is \<open>None\<close> when
  \<open>calculateBinning\<close> does not return.
\<close>

definition histogram ::
  "jsnum list \<Rightarrow> Binning option \<Rightarrow> jsnum option \<Rightarrow> nat list
     \<Rightarrow> (error + histogramResult) option" where
  "histogram vals binningArg goalNumberOfBins indices =
     (let numValues = countDistinct (countDistinctAgg (Some 500) vals)
      in if numValues = 0 then Some (Inr NoData)
         else
           case (case binningArg of
                   None \<Rightarrow> calculateBinning vals numValues goalNumberOfBins
                 | Some b \<Rightarrow> Some b) of
             None \<Rightarrow> None
           | Some binning \<Rightarrow>
               let degenerate = js_eq (binMaxValue binning) (binMinValue binning);
                   mn = binMinValue binning;
                   width = (if degenerate then Fin 1 else binWidth binning);
                   nbins = (if degenerate then Fin 1 else numBins binning);
                   topVal = (if degenerate then js_add mn (Fin 1) else binMaxValue binning);
                   bottomVal = mn;
                   countBy = (isCountBy binning = Some True)
               in if \<not> typedArrayLengthOk nbins then Some (Inl RangeError)
                  else if js_eq nbins (Fin 1) then
                    Some (Inr (Histogram
                      \<lparr> isCountByType = countBy, histNumBins = nbins, histBinWidth = width,
                        histNumValues = numValues, histMaxValue = topVal, histMinValue = bottomVal,
                        histBins = [0 \<mapsto> Fin (real numValues)],
                        histBinValues = (if countBy then Some [0 \<mapsto> Value mn] else None) \<rparr>))
                  else
                    case arrayLength nbins of
                      None \<Rightarrow> Some (Inl RangeError)
                    | Some n \<Rightarrow>
                        let st = histogramLoop vals bottomVal width indices
                                   \<lparr> bins = (\<lambda>i. if 0 \<le> i \<and> i < int n then Some (Fin 0) else None),
                                     binValues = Map.empty \<rparr>
                        in Some (Inr (Histogram
                             \<lparr> isCountByType = countBy, histNumBins = nbins, histBinWidth = width,
                               histNumValues = numValues, histMaxValue = topVal,
                               histMinValue = bottomVal,
                               histBins = bins st, histBinValues = Some (binValues st) \<rparr>)))"

text \<open>Readers of a result: the number of bins, and the entry of \<open>bins\<close> at an index.\<close>

definition resultNumBins :: "(error + histogramResult) option \<Rightarrow> jsnum option" where
  "resultNumBins r = (case r of Some (Inr (Histogram h)) \<Rightarrow> Some (histNumBins h) | _ \<Rightarrow> None)"

definition resultBin :: "(error + histogramResult) option \<Rightarrow> int \<Rightarrow> jsnum option" where
  "resultBin r i = (case r of Some (Inr (Histogram h)) \<Rightarrow> histBins h i | _ \<Rightarrow> None)"

section \<open>Properties of the aggregations\<close>

lemma numericLoop_sum:
  "snd (snd (numericLoop vals mn mx s)) =
     foldl js_add s (filter (\<lambda>v. \<not> numberSignifiesUndefined v) vals)"
  by (induction vals arbitrary: mn mx s) (simp_all add: parseFloat_def)

text \<open>
  C5, at a strictly decreasing column: every value is a new minimum, so the
  \<open>else if\<close> never looks at \<open>maxValue\<close>, which keeps its initial \<open>-Infinity\<close> although the
  maximum of the defined values is 3.
\<close>

theorem numeric_max_missed_on_decreasing:
  "maxValue (fixedAllocationNumericAggregations [Fin 3, Fin 2, Fin 1]) = NegInf
   \<and> minValue (fixedAllocationNumericAggregations [Fin 3, Fin 2, Fin 1]) = Fin 1"
  by (simp add: fixedAllocationNumericAggregations_def count_def
      numberSignifiesUndefined_def js_gt_def parseFloat_def)

text \<open>
  C6: the average is the sum of the defined values divided by the length of the column,
  the undefined positions included in the denominator.
\<close>

theorem average_over_all_values:
  "averageValue (fixedAllocationNumericAggregations vals) =
     js_div (sumOfDefined vals) (Fin (real (length vals)))"
proof -
  obtain mn mx s where run: "numericLoop vals PosInf NegInf (Fin 0) = (mn, mx, s)"
    by (cases "numericLoop vals PosInf NegInf (Fin 0)") auto
  have "s = sumOfDefined vals"
    using numericLoop_sum [of vals PosInf NegInf "Fin 0"] run
    by (simp add: sumOfDefined_def)
  then show ?thesis
    by (simp add: fixedAllocationNumericAggregations_def count_def run)
qed

lemma countDistinctLoop_append:
  "countDistinctLoop limit (xs @ ys) st = countDistinctLoop limit ys (countDistinctLoop limit xs st)"
  by (induction xs arbitrary: st) (simp_all add: Let_def split: option.splits)

lemma countDistinctLoop_frozen:
  "limit < int (numDistinct st) \<Longrightarrow>
     distinctCounts (countDistinctLoop limit vs st) = distinctCounts st
     \<and> numDistinct (countDistinctLoop limit vs st) = numDistinct st"
  by (induction vs arbitrary: st) (simp_all add: Let_def)

text \<open>
  C4 as stated fails: with \<open>limit = 1\<close> on the column \<open>[1, 2, 1]\<close> the third value is an
  already-seen key met after two distinct values, and its count stays 1 although the
  value occurs twice.
\<close>

theorem countDistinct_stops_counting_seen_keys:
  "count_list [Fin 1, Fin 2, Fin 1] (Fin 1) = 2
   \<and> distinctValues (countDistinctAgg (Some 1) [Fin 1, Fin 2, Fin 1]) (Fin 1) = Some 1
   \<and> countDistinct (countDistinctAgg (Some 1) [Fin 1, Fin 2, Fin 1]) = 2"
  by (simp add: countDistinctAgg_def count_def initialDistinctState_def Let_def
      valueSignifiedUndefined_def numberSignifiesUndefined_def js_gt_def)

text \<open>
  C4, amended: once more than \<open>limit\<close> distinct defined values have been seen, the rest
  of the pass leaves \<open>distinctValues\<close> and \<open>countDistinct\<close> as they are: no new key is
  added and no count of an already-seen key is incremented (\<open>if (numDistinct > limit)
  continue\<close> skips both branches).
\<close>

theorem countDistinct_frozen_past_limit:
  assumes "limit < int (countDistinct (countDistinctAgg (Some limit) pre))"
  shows "distinctValues (countDistinctAgg (Some limit) (pre @ rest)) =
           distinctValues (countDistinctAgg (Some limit) pre)
         \<and> countDistinct (countDistinctAgg (Some limit) (pre @ rest)) =
           countDistinct (countDistinctAgg (Some limit) pre)"
proof -
  let ?st = "countDistinctLoop limit pre initialDistinctState"
  have over: "limit < int (numDistinct ?st)"
    using assms by (simp add: countDistinctAgg_def count_def Let_def)
  show ?thesis
    using countDistinctLoop_frozen [OF over, of rest]
    by (simp add: countDistinctAgg_def count_def Let_def countDistinctLoop_append)
qed

theorem countDistinct_frozen_past_limit_witness:
  "1 < int (countDistinct (countDistinctAgg (Some 1) [Fin 1, Fin 2]))
   \<and> distinctValues (countDistinctAgg (Some 1) ([Fin 1, Fin 2] @ [Fin 1, Fin 3])) =
       distinctValues (countDistinctAgg (Some 1) [Fin 1, Fin 2])
   \<and> distinctValues (countDistinctAgg (Some 1) [Fin 1, Fin 2]) (Fin 1) = Some 1"
proof -
  have h: "1 < int (countDistinct (countDistinctAgg (Some 1) [Fin 1, Fin 2]))"
    by (simp add: countDistinctAgg_def count_def initialDistinctState_def Let_def
      valueSignifiedUndefined_def numberSignifiesUndefined_def js_gt_def)
  have v: "distinctValues (countDistinctAgg (Some 1) [Fin 1, Fin 2]) (Fin 1) = Some 1"
    by (simp add: countDistinctAgg_def count_def initialDistinctState_def Let_def
      valueSignifiedUndefined_def numberSignifiesUndefined_def js_gt_def)
  show ?thesis
    using h v countDistinct_frozen_past_limit [OF h, of "[Fin 1, Fin 3]"] by simp
qed

section \<open>Properties of the edge encapsulation\<close>

lemma typedSet_length [simp]: "length (typedSet xs i v) = length xs"
  by (simp add: typedSet_def)

lemma typedSet_nth_other: "int k \<noteq> i \<Longrightarrow> typedSet xs i v ! k = xs ! k"
  by (auto simp: typedSet_def)

lemma typedSet_nth_same: "k < length xs \<Longrightarrow> typedSet xs (int k) v ! k = v"
  by (simp add: typedSet_def)

lemma invert_fold_length:
  "length (fold (\<lambda>(i, val) perm. typedSet perm (int val) i) kvs p) = length p"
  by (induction kvs arbitrary: p) (auto)

lemma invert_fold_untouched:
  "v \<notin> snd ` set kvs \<Longrightarrow>
     fold (\<lambda>(i, val) perm. typedSet perm (int val) i) kvs p ! v = p ! v"
  by (induction kvs arbitrary: p) (auto simp: typedSet_nth_other)

lemma invert_fold_hit:
  "distinct (map snd kvs) \<Longrightarrow> (i, v) \<in> set kvs \<Longrightarrow> v < length p \<Longrightarrow>
     fold (\<lambda>(i, val) perm. typedSet perm (int val) i) kvs p ! v = i"
proof (induction kvs arbitrary: p)
  case Nil
  then show ?case by simp
next
  case (Cons kv kvs)
  obtain k w where kv: "kv = (k, w)" by (cases kv)
  show ?case
  proof (cases "(i, v) = (k, w)")
    case True
    have "w \<notin> snd ` set kvs" using Cons.prems(1) kv by auto
    then show ?thesis
      using True Cons.prems(3) kv
      by (simp add: invert_fold_untouched typedSet_nth_same)
  next
    case False
    then have "(i, v) \<in> set kvs" using Cons.prems(2) kv by auto
    moreover have "distinct (map snd kvs)" using Cons.prems(1) by simp
    ultimately show ?thesis
      using Cons.IH [of "typedSet p (int w) k"] Cons.prems(3) kv by simp
  qed
qed

lemma invertPermutation_inverse:
  assumes "distinct orig" and "i < length orig" and "orig ! i < n"
  shows "invertPermutation orig n ! (orig ! i) = i"
proof -
  have "(i, orig ! i) \<in> set (zip [0..<length orig] orig)"
    using assms(2) by (auto simp: in_set_zip intro!: exI [of _ i])
  moreover have "distinct (map snd (zip [0..<length orig] orig))"
    using assms(1) by simp
  ultimately show ?thesis
    unfolding invertPermutation_def
    using assms(3) by (intro invert_fold_hit) simp_all
qed

lemma originals_perm:
  "length (snd (computeEdgeList edges)) = length edges"
  "set (snd (computeEdgeList edges)) = {0..<length edges}"
  "distinct (snd (computeEdgeList edges))"
  "length (fst (computeEdgeList edges)) = length edges"
  by (simp_all add: computeEdgeList_def Let_def)


lemma scanEdges_props:
  "scanEdges es i cnt pos = (c', p') \<Longrightarrow> pos \<le> length es \<Longrightarrow>
     pos \<le> p' \<and> p' \<le> length es \<and> c' = cnt + (p' - pos)
     \<and> (p' < length es \<longrightarrow> fst (es ! p') \<noteq> i)
     \<and> (\<forall>k. pos \<le> k \<and> k < p' \<longrightarrow> fst (es ! k) = i)"
proof (induction es i cnt pos rule: scanEdges.induct)
  case (1 es i cnt pos)
  show ?case
  proof (cases "pos < length es \<and> fst (es ! pos) = i")
    case True
    then have rec: "scanEdges es i (cnt + 1) (pos + 1) = (c', p')"
      using "1.prems"(1) by (simp del: scanEdges.simps add: scanEdges.simps [of es i cnt pos])
    have "pos + 1 \<le> length es" using True by simp
    from "1.IH" [OF True rec this]
    have ih: "pos + 1 \<le> p'" "p' \<le> length es" "c' = cnt + 1 + (p' - (pos + 1))"
      "p' < length es \<longrightarrow> fst (es ! p') \<noteq> i"
      "\<forall>k. pos + 1 \<le> k \<and> k < p' \<longrightarrow> fst (es ! k) = i"
      by auto
    have "\<forall>k. pos \<le> k \<and> k < p' \<longrightarrow> fst (es ! k) = i"
    proof (intro allI impI)
      fix k assume k: "pos \<le> k \<and> k < p'"
      show "fst (es ! k) = i"
      proof (cases "k = pos")
        case True
        then show ?thesis using \<open>pos < length es \<and> fst (es ! pos) = i\<close> by simp
      next
        case False
        then show ?thesis using k ih(5) by auto
      qed
    qed
    then show ?thesis using ih by auto
  next
    case False
    then have "(c', p') = (cnt, pos)"
      using "1.prems"(1) by (auto simp del: scanEdges.simps simp add: scanEdges.simps [of es i cnt pos])
    then show ?thesis using False "1.prems"(2) by auto
  qed
qed


declare scanEdges.simps [simp del]
declare workItemsFrom.simps [simp del]

lemma workItemsFrom_sum:
  "sorted (map fst es) \<Longrightarrow> \<forall>e \<in> set es. fst e < n \<Longrightarrow>
   i \<le> n \<Longrightarrow> pos \<le> length es \<Longrightarrow> srcInv es pos src \<Longrightarrow>
   (\<forall>k. pos \<le> k \<and> k < length es \<longrightarrow> i \<le> fst (es ! k)) \<Longrightarrow>
   sum_list (map (\<lambda>w. nat (fst (snd w))) (workItemsFrom es n i pos src)) = length es - pos"
proof (induction es n i pos src rule: workItemsFrom.induct)
  case (1 es n i pos src)
  note srt = "1.prems"(1) and bnd = "1.prems"(2) and le = "1.prems"(3)
    and posle = "1.prems"(4) and sinv = "1.prems"(5) and low = "1.prems"(6)
  show ?case
  proof (cases "i < n")
    case False
    then have "i = n" using le by simp
    have "\<not> pos < length es"
    proof
      assume lt: "pos < length es"
      then have "n \<le> fst (es ! pos)" using low \<open>i = n\<close> by auto
      moreover have "fst (es ! pos) < n" using bnd lt nth_mem by blast
      ultimately show False by simp
    qed
    then show ?thesis using False by (simp add: workItemsFrom.simps [of es n i pos src])
  next
    case True
    show ?thesis
    proof (cases "src = Some (int i)")
      case hit: True
      then have lt: "pos < length es" and here: "fst (es ! pos) = i"
        using sinv by (auto simp: srcInv_def split: if_splits)
      obtain c' p' where sc: "scanEdges es i 0 pos = (c', p')"
        by (cases "scanEdges es i 0 pos")
      from scanEdges_props [OF sc posle]
      have p: "pos \<le> p'" "p' \<le> length es" "c' = p' - pos"
        "p' < length es \<longrightarrow> fst (es ! p') \<noteq> i"
        by auto
      let ?src' = "if p' < length es then Some (int (fst (es ! p'))) else Some (- 1)"
      have sinv': "srcInv es p' ?src'"
        by (simp add: srcInv_def)
      have low': "\<forall>k. p' \<le> k \<and> k < length es \<longrightarrow> i + 1 \<le> fst (es ! k)"
      proof (intro allI impI)
        fix k assume k: "p' \<le> k \<and> k < length es"
        then have p'lt: "p' < length es" by simp
        have "fst (es ! p') \<le> fst (es ! k)"
          using srt k p'lt by (auto simp: sorted_iff_nth_mono dest!: spec [of _ p'] spec [of _ k])
        moreover have "i \<le> fst (es ! p')" using low p(1) p'lt by auto
        moreover have "fst (es ! p') \<noteq> i" using p(4) p'lt by simp
        ultimately show "i + 1 \<le> fst (es ! k)" by simp
      qed
      have rest: "sum_list (map (\<lambda>w. nat (fst (snd w)))
                    (workItemsFrom es n (i + 1) p' ?src')) = length es - p'"
        using "1.IH"(1) [OF True hit refl sc [symmetric] refl refl srt bnd, unfolded snd_conv]
          True p(2) sinv' low' by (simp cong: if_cong)
      have unf: "workItemsFrom es n i pos src =
          (int pos, int c', int i) # workItemsFrom es n (i + 1) p' ?src'"
        by (subst workItemsFrom.simps) (simp add: True hit sc Let_def cong: if_cong)
      show ?thesis
        using rest p by (simp add: unf)
    next
      case miss: False
      have low': "\<forall>k. pos \<le> k \<and> k < length es \<longrightarrow> i + 1 \<le> fst (es ! k)"
      proof (intro allI impI)
        fix k assume k: "pos \<le> k \<and> k < length es"
        then have plt: "pos < length es" by simp
        then have "src = Some (int (fst (es ! pos)))" using sinv by (simp add: srcInv_def)
        then have "fst (es ! pos) \<noteq> i" using miss by auto
        moreover have "i \<le> fst (es ! pos)" using low plt by auto
        moreover have "fst (es ! pos) \<le> fst (es ! k)"
          using srt k plt by (auto simp: sorted_iff_nth_mono dest!: spec [of _ pos] spec [of _ k])
        ultimately show "i + 1 \<le> fst (es ! k)" by simp
      qed
      have rest: "sum_list (map (\<lambda>w. nat (fst (snd w)))
                    (workItemsFrom es n (i + 1) pos src)) = length es - pos"
        using "1.IH"(2) [OF True miss srt bnd _ posle sinv low'] True by simp
      have unf: "workItemsFrom es n i pos src =
          (- 1, 0, int i) # workItemsFrom es n (i + 1) pos src"
        by (subst workItemsFrom.simps) (simp add: True miss)
      show ?thesis
        using rest by (simp add: unf)
    qed
  qed
qed


lemma workItemsFrom_shape:
  "length (workItemsFrom es n i pos src) = n - i
   \<and> (\<forall>k < n - i. snd (snd (workItemsFrom es n i pos src ! k)) = int (i + k)
                   \<and> 0 \<le> fst (snd (workItemsFrom es n i pos src ! k)))"
proof (induction es n i pos src rule: workItemsFrom.induct)
  case (1 es n i pos src)
  show ?case
  proof (cases "i < n")
    case False
    then show ?thesis by (simp add: workItemsFrom.simps [of es n i pos src])
  next
    case True
    show ?thesis
    proof (cases "src = Some (int i)")
      case hit: True
      obtain c' p' where sc: "scanEdges es i 0 pos = (c', p')"
        by (cases "scanEdges es i 0 pos")
      let ?src' = "if p' < length es then Some (int (fst (es ! p'))) else Some (- 1)"
      let ?rest = "workItemsFrom es n (i + 1) p' ?src'"
      have unf: "workItemsFrom es n i pos src = (int pos, int c', int i) # ?rest"
        by (subst workItemsFrom.simps) (simp add: True hit sc Let_def cong: if_cong)
      have ih: "length ?rest = n - (i + 1)"
        "\<forall>k < n - (i + 1). snd (snd (?rest ! k)) = int (i + 1 + k) \<and> 0 \<le> fst (snd (?rest ! k))"
        using "1.IH"(1) [OF True hit refl sc [symmetric] refl refl, unfolded snd_conv]
        by (simp_all cong: if_cong)
      show ?thesis
        unfolding unf using True ih by (auto simp: nth_Cons split: nat.splits)
    next
      case miss: False
      let ?rest = "workItemsFrom es n (i + 1) pos src"
      have unf: "workItemsFrom es n i pos src = (- 1, 0, int i) # ?rest"
        by (subst workItemsFrom.simps) (simp add: True miss)
      have ih: "length ?rest = n - (i + 1)"
        "\<forall>k < n - (i + 1). snd (snd (?rest ! k)) = int (i + 1 + k) \<and> 0 \<le> fst (snd (?rest ! k))"
        using "1.IH"(2) [OF True miss] by simp_all
      show ?thesis
        unfolding unf using True ih by (auto simp: nth_Cons split: nat.splits)
    qed
  qed
qed

lemma toUint32_nonneg: "0 \<le> x \<Longrightarrow> toUint32 x = nat x"
  by (simp add: toUint32_def)

lemma degrees_fold:
  assumes len: "length ws = n"
    and ids: "\<forall>k < n. snd (snd (ws ! k)) = int k \<and> 0 \<le> fst (snd (ws ! k))"
  shows "m \<le> n \<Longrightarrow>
         length (snd (fold (\<lambda>i (s2w, deg). case ws ! i of (start, cnt, src) \<Rightarrow>
                    (typedSet s2w src (int i), typedSet deg src (toUint32 cnt)))
                  [0..<m] (replicate n (0::int), replicate n (0::nat)))) = n
         \<and> (\<forall>j < n. snd (fold (\<lambda>i (s2w, deg). case ws ! i of (start, cnt, src) \<Rightarrow>
                    (typedSet s2w src (int i), typedSet deg src (toUint32 cnt)))
                  [0..<m] (replicate n (0::int), replicate n (0::nat))) ! j
               = (if j < m then nat (fst (snd (ws ! j))) else 0))"
proof (induction m)
  case 0
  then show ?case by simp
next
  case (Suc m)
  let ?f = "\<lambda>i (s2w, deg). case ws ! i of (start, cnt, src) \<Rightarrow>
              (typedSet s2w src (int i), typedSet deg src (toUint32 cnt))"
  let ?st = "fold ?f [0..<m] (replicate n (0::int), replicate n (0::nat))"
  have m: "m < n" using Suc.prems by simp
  have ih: "length (snd ?st) = n"
    "\<forall>j < n. snd ?st ! j = (if j < m then nat (fst (snd (ws ! j))) else 0)"
    using Suc.IH m by simp_all
  obtain start cnt src where w: "ws ! m = (start, cnt, src)" by (cases "ws ! m")
  have src: "src = int m" and cnt: "0 \<le> cnt" using ids m w by auto
  have step: "snd (fold ?f [0..<Suc m] (replicate n 0, replicate n 0))
                = typedSet (snd ?st) (int m) (nat cnt)"
    by (simp add: w src case_prod_unfold toUint32_nonneg [OF cnt])
  show ?case
    unfolding step using ih m w
    by (auto simp: typedSet_def nth_list_update)
qed

lemma degreesLoop_counts:
  assumes "length ws = n"
    and "\<forall>k < n. snd (snd (ws ! k)) = int k \<and> 0 \<le> fst (snd (ws ! k))"
  shows "snd (degreesLoop ws n) = map (\<lambda>w. nat (fst (snd w))) ws"
proof (rule nth_equalityI)
  show "length (snd (degreesLoop ws n)) = length (map (\<lambda>w. nat (fst (snd w))) ws)"
    using degrees_fold [OF assms, of n] assms(1) by (simp add: degreesLoop_def)
next
  fix j assume "j < length (snd (degreesLoop ws n))"
  then have j: "j < n"
    using degrees_fold [OF assms, of n] by (simp add: degreesLoop_def)
  then show "snd (degreesLoop ws n) ! j = map (\<lambda>w. nat (fst (snd w))) ws ! j"
    using degrees_fold [OF assms, of n] assms(1) by (simp add: degreesLoop_def)
qed

lemma sorted_map_fst: "sorted (xs :: (nat \<times> nat) list) \<Longrightarrow> sorted (map fst xs)"
  by (induction xs) (auto simp: less_eq_prod_def)

lemma computeEdgeList_sorted: "sorted (map fst (fst (computeEdgeList edges)))"
proof -
  have "sorted (map (\<lambda>a. edges ! a) (sort_key (\<lambda>a. edges ! a) [0..<length edges]))"
    by (rule sorted_sort_key)
  then have "sorted (map fst (map (\<lambda>a. edges ! a) (sort_key (\<lambda>a. edges ! a) [0..<length edges])))"
    by (rule sorted_map_fst)
  then show ?thesis
    by (simp add: computeEdgeList_def Let_def)
qed

lemma computeEdgeList_set: "set (fst (computeEdgeList edges)) = set edges"
proof -
  have "set (fst (computeEdgeList edges)) = (\<lambda>a. edges ! a) ` {0..<length edges}"
    by (simp add: computeEdgeList_def Let_def)
  also have "\<dots> = set edges"
    by (auto simp: set_conv_nth)
  finally show ?thesis .
qed

text \<open>
  C1: when every endpoint is a point index below \<open>numPoints\<close>, the permutation undoes its
  inverse at every sorted edge index, and the degrees add up to the number of edges.
\<close>

theorem encapsulateEdges_inverse_and_degree_sum:
  assumes "\<forall>e \<in> set edges. fst e < npoints \<and> snd e < npoints"
  shows "(\<forall>i < length edges.
            edgePermutation (encapsulateEdges edges npoints)
              ! (edgePermutationInverseTyped (encapsulateEdges edges npoints) ! i) = i)
         \<and> sum_list (degreesTyped (encapsulateEdges edges npoints)) = length edges"
proof -
  let ?es = "fst (computeEdgeList edges)"
  let ?orig = "snd (computeEdgeList edges)"
  let ?ws = "computeWorkItemsTyped ?es npoints"
  have perm: "\<forall>i < length edges. invertPermutation ?orig (length ?es) ! (?orig ! i) = i"
  proof (intro allI impI)
    fix i assume i: "i < length edges"
    then have "?orig ! i \<in> set ?orig" by (simp add: originals_perm(1))
    then have "?orig ! i < length ?es" by (simp add: originals_perm)
    then show "invertPermutation ?orig (length ?es) ! (?orig ! i) = i"
      using i by (intro invertPermutation_inverse) (simp_all add: originals_perm)
  qed
  have shape: "length ?ws = npoints"
    "\<forall>k < npoints. snd (snd (?ws ! k)) = int k \<and> 0 \<le> fst (snd (?ws ! k))"
    using workItemsFrom_shape [of ?es npoints 0 0]
    by (simp_all add: computeWorkItemsTyped_def)
  have "srcInv ?es 0 (map_option (\<lambda>e. int (fst e)) (lookupIndex ?es 0))"
    by (simp add: srcInv_def lookupIndex_def)
  moreover have "\<forall>e \<in> set ?es. fst e < npoints"
    using assms by (simp add: computeEdgeList_set)
  ultimately have "sum_list (map (\<lambda>w. nat (fst (snd w))) ?ws) = length ?es - 0"
    unfolding computeWorkItemsTyped_def
    by (intro workItemsFrom_sum computeEdgeList_sorted) simp_all
  then have "sum_list (snd (degreesLoop ?ws npoints)) = length edges"
    by (simp add: degreesLoop_counts [OF shape] originals_perm)
  then show ?thesis
    using perm by (simp add: encapsulateEdges_def Let_def)
qed

theorem encapsulateEdges_inverse_and_degree_sum_witness:
  "map (\<lambda>i. edgePermutation (encapsulateEdges [(2, 1), (0, 2), (2, 0), (0, 1)] 3)
               ! (edgePermutationInverseTyped (encapsulateEdges [(2, 1), (0, 2), (2, 0), (0, 1)] 3) ! i))
       [0, 1, 2, 3] = [0, 1, 2, 3]
   \<and> sum_list (degreesTyped (encapsulateEdges [(2, 1), (0, 2), (2, 0), (0, 1)] 3)) = 4"
proof -
  have h: "\<forall>e \<in> set [(2, 1), (0, 2), (2, 0), (0, 1)]. fst e < (3::nat) \<and> snd e < (3::nat)"
    by simp
  show ?thesis
    using encapsulateEdges_inverse_and_degree_sum [OF h] by simp
qed

section \<open>Properties of the mask operations\<close>

lemma lookup_fold_dom:
  "fold (\<lambda>idx lookup. lookup(idx \<mapsto> v)) idxs m k =
     (if k \<in> set idxs then Some v else m k)"
  by (induction idxs arbitrary: m) auto

lemma fold_push_filter:
  "fold (\<lambda>x acc. if P x then acc @ [x] else acc) xs acc0 = acc0 @ filter P xs"
  by (induction xs arbitrary: acc0) auto

text \<open>
  C7: the pruned mask keeps the points of the old mask, and its edges are the edge
  indices of the old mask, in their order, that lie in the sorted edge array and have
  both endpoints among the points of the old mask.
\<close>

theorem pruneMaskEdges_keeps_internal_edges:
  assumes "forwardsEdges (hostBuffers (rawdata df)) = Some fwd"
  shows "pruneMaskEdges df oldMask =
           Inr \<lparr> point = point oldMask,
                 edge = Some (filter
                   (\<lambda>edgeIdx. edgeIdx < length (edgesTyped fwd)
                      \<and> fst (edgesTyped fwd ! edgeIdx) \<in> set (mapPointIndexes df oldMask)
                      \<and> snd (edgesTyped fwd ! edgeIdx) \<in> set (mapPointIndexes df oldMask))
                   (mapEdgeIndexes df oldMask)) \<rparr>"
proof -
  let ?lk = "fold (\<lambda>idx lookup. lookup(idx \<mapsto> (1::nat))) (mapPointIndexes df oldMask) Map.empty"
  have keep: "\<And>edgeIdx.
      (Option.bind (map_option fst (lookupIndex (edgesTyped fwd) edgeIdx)) ?lk = Some 1
       \<and> Option.bind (map_option snd (lookupIndex (edgesTyped fwd) edgeIdx)) ?lk = Some 1)
      = (edgeIdx < length (edgesTyped fwd)
          \<and> fst (edgesTyped fwd ! edgeIdx) \<in> set (mapPointIndexes df oldMask)
          \<and> snd (edgesTyped fwd ! edgeIdx) \<in> set (mapPointIndexes df oldMask))"
    by (auto simp: lookupIndex_def lookup_fold_dom)
  show ?thesis
    using assms
    by (simp add: pruneMaskEdges_def Let_def keep fold_push_filter del: One_nat_def)
qed

lemma example_edges:
  "edgesTyped (encapsulateEdges exampleEdges 4) = exampleEdges"
  by (simp add: encapsulateEdges_def computeEdgeList_def exampleEdges_def Let_def upt_rec)

text \<open>
  The scenario: masking the 4-point dataset to the points \<open>{0,1,2}\<close> with unrestricted
  edges keeps the sorted edges 0 and 1, which are \<open>(0,1)\<close> and \<open>(1,2)\<close>.
\<close>

theorem pruneMaskEdges_scenario:
  "forwardsEdges (hostBuffers (rawdata exampleFrame)) = Some (encapsulateEdges exampleEdges 4)
   \<and> pruneMaskEdges exampleFrame \<lparr> point = Some [0, 1, 2], edge = None \<rparr>
       = Inr \<lparr> point = Some [0, 1, 2], edge = Some [0, 1] \<rparr>
   \<and> map (\<lambda>e. edgesTyped (encapsulateEdges exampleEdges 4) ! e) [0, 1] = [(0, 1), (1, 2)]"
proof -
  have h: "forwardsEdges (hostBuffers (rawdata exampleFrame)) = Some (encapsulateEdges exampleEdges 4)"
    by (simp add: exampleFrame_def exampleData_def)
  have n: "mapEdgeIndexes exampleFrame \<lparr> point = Some [0, 1, 2], edge = None \<rparr> = [0, 1, 2]"
    by (simp add: mapEdgeIndexes_def mapIndexes_def numByType_def exampleFrame_def
        exampleData_def upt_rec)
  have p: "mapPointIndexes exampleFrame \<lparr> point = Some [0, 1, 2], edge = None \<rparr> = [0, 1, 2]"
    by (simp add: mapPointIndexes_def mapIndexes_def)
  show ?thesis
    using h pruneMaskEdges_keeps_internal_edges [OF h, of "\<lparr> point = Some [0, 1, 2], edge = None \<rparr>"]
    unfolding example_edges n p
    by (simp add: exampleEdges_def)
qed

declare collectSatisfied.simps [simp del]

lemma fold_pair_split:
  "fold (\<lambda>m (a, b). (f m a, g m b)) ms (a0, b0) = (fold f ms a0, fold g ms b0)"
  by (induction ms arbitrary: a0 b0) auto

lemma incrementAt_length [simp]: "length (incrementAt cs idx) = length cs"
  by (simp add: incrementAt_def)

lemma zeroAt_length [simp]: "length (zeroAt cs idx) = length cs"
  by (simp add: zeroAt_def)

lemma fold_incrementAt_length [simp]:
  "length (fold (\<lambda>idx cs. incrementAt cs idx) idxs cs) = length cs"
  by (induction idxs arbitrary: cs) auto

lemma fold_zeroAt_length [simp]:
  "length (fold (\<lambda>idx cs. zeroAt cs idx) idxs cs) = length cs"
  by (induction idxs arbitrary: cs) auto

lemma fold_incrementAt_nth:
  "distinct idxs \<Longrightarrow> i < length cs \<Longrightarrow>
     fold (\<lambda>idx cs. incrementAt cs idx) idxs cs ! i =
       (if i \<in> set idxs then (cs ! i + 1) mod 256 else cs ! i)"
proof (induction idxs arbitrary: cs)
  case Nil
  then show ?case by simp
next
  case (Cons a idxs)
  then show ?case
    by (auto simp: incrementAt_def nth_list_update)
qed

lemma fold_zeroAt_nth:
  "i < length cs \<Longrightarrow>
     fold (\<lambda>idx cs. zeroAt cs idx) idxs cs ! i = (if i \<in> set idxs then 0 else cs ! i)"
proof (induction idxs arbitrary: cs)
  case Nil
  then show ?case by simp
next
  case (Cons a idxs)
  then show ?case
    by (auto simp: zeroAt_def nth_list_update)
qed

lemma select_fold_length [simp]:
  "length (fold (\<lambda>m cs. fold (\<lambda>idx cs. incrementAt cs idx) (idxs m) cs) ms cs) = length cs"
  by (induction ms arbitrary: cs) auto

lemma exclude_fold_length [simp]:
  "length (fold (\<lambda>m cs. fold (\<lambda>idx cs. zeroAt cs idx) (idxs m) cs) ms cs) = length cs"
  by (induction ms arbitrary: cs) auto

lemma select_fold_nth:
  "\<forall>m \<in> set ms. distinct (idxs m) \<Longrightarrow> i < length cs \<Longrightarrow> cs ! i < 256 \<Longrightarrow>
     fold (\<lambda>m cs. fold (\<lambda>idx cs. incrementAt cs idx) (idxs m) cs) ms cs ! i =
       (cs ! i + length (filter (\<lambda>m. i \<in> set (idxs m)) ms)) mod 256"
proof (induction ms arbitrary: cs)
  case Nil
  then show ?case by simp
next
  case (Cons m ms)
  let ?cs' = "fold (\<lambda>idx cs. incrementAt cs idx) (idxs m) cs"
  have d: "distinct (idxs m)" using Cons.prems(1) by simp
  have v: "?cs' ! i = (if i \<in> set (idxs m) then (cs ! i + 1) mod 256 else cs ! i)"
    using fold_incrementAt_nth [OF d Cons.prems(2)] .
  have lt: "?cs' ! i < 256" using v Cons.prems(3) by simp
  have "fold (\<lambda>m cs. fold (\<lambda>idx cs. incrementAt cs idx) (idxs m) cs) ms ?cs' ! i
          = (?cs' ! i + length (filter (\<lambda>m. i \<in> set (idxs m)) ms)) mod 256"
    using Cons.IH [of ?cs'] Cons.prems lt by simp
  then show ?case
    using v by (simp add: mod_simps)
qed

lemma exclude_fold_nth:
  "i < length cs \<Longrightarrow>
     fold (\<lambda>m cs. fold (\<lambda>idx cs. zeroAt cs idx) (idxs m) cs) ms cs ! i =
       (if \<exists>m \<in> set ms. i \<in> set (idxs m) then 0 else cs ! i)"
proof (induction ms arbitrary: cs)
  case Nil
  then show ?case by simp
next
  case (Cons m ms)
  then show ?case
    by (simp add: fold_zeroAt_nth)
qed

lemma js_ge_PosInf [simp]: "js_ge (Fin x) PosInf = False"
  by (simp add: js_ge_def js_eq_def)

lemma collectSatisfied_unlimited:
  "collectSatisfied cs numMasks PosInf i acc =
     acc @ filter (\<lambda>j. cs ! j = numMasks) [i..<length cs]"
proof (induction cs numMasks PosInf i acc rule: collectSatisfied.induct)
  case (1 cs numMasks i acc)
  show ?case
  proof (cases "i < length cs")
    case False
    then show ?thesis by (simp add: collectSatisfied.simps [of cs numMasks PosInf i acc])
  next
    case True
    have "collectSatisfied cs numMasks PosInf i acc =
            collectSatisfied cs numMasks PosInf (i + 1)
              (if cs ! i = numMasks then acc @ [i] else acc)"
      by (subst collectSatisfied.simps) (simp add: True Let_def)
    also have "\<dots> = (if cs ! i = numMasks then acc @ [i] else acc)
                      @ filter (\<lambda>j. cs ! j = numMasks) [i + 1..<length cs]"
      using "1.hyps" [OF True refl] by simp
    finally show ?thesis
      using True by (simp add: upt_conv_Cons)
  qed
qed

lemma filter_all_length:
  "(length (filter P xs) = length xs) = (\<forall>x \<in> set xs. P x)"
proof (induction xs)
  case Nil
  then show ?case by simp
next
  case (Cons x xs)
  have ne: "length (filter P xs) \<noteq> Suc (length xs)"
    using length_filter_le [of P xs] by arith
  show ?case using Cons ne by auto
qed

text \<open>The counters after both passes, for one component type.\<close>

lemma counters_decide:
  assumes wf: "\<forall>m \<in> set sel. distinct (idxs m)" and len: "length sel \<le> 255"
    and ne: "sel \<noteq> []" and i: "i < n"
  shows "(fold (\<lambda>m cs. fold (\<lambda>idx cs. zeroAt cs idx) (idxs m) cs) excl
            (fold (\<lambda>m cs. fold (\<lambda>idx cs. incrementAt cs idx) (idxs m) cs) sel (replicate n 0)) ! i
          = length sel)
         = ((\<forall>m \<in> set sel. i \<in> set (idxs m)) \<and> (\<forall>m \<in> set excl. i \<notin> set (idxs m)))"
proof -
  let ?k = "length (filter (\<lambda>m. i \<in> set (idxs m)) sel)"
  have k: "?k \<le> length sel" by simp
  have sel_v: "fold (\<lambda>m cs. fold (\<lambda>idx cs. incrementAt cs idx) (idxs m) cs) sel (replicate n 0) ! i = ?k"
    using select_fold_nth [OF wf, of i "replicate n 0"] i k len by simp
  have pos: "0 < length sel" using ne by simp
  have all: "(?k = length sel) = (\<forall>m \<in> set sel. i \<in> set (idxs m))"
    by (rule filter_all_length)
  have "fold (\<lambda>m cs. fold (\<lambda>idx cs. zeroAt cs idx) (idxs m) cs) excl
            (fold (\<lambda>m cs. fold (\<lambda>idx cs. incrementAt cs idx) (idxs m) cs) sel (replicate n 0)) ! i
          = (if \<exists>m \<in> set excl. i \<in> set (idxs m) then 0 else ?k)"
    using i by (simp only: exclude_fold_nth select_fold_length length_replicate sel_v)
  then show ?thesis
    using pos all by auto
qed


lemma unlimited_bounds:
  "unlimited limits \<Longrightarrow>
     limitBound (pointLimit (defaultLimits limits)) = PosInf
     \<and> limitBound (edgeLimit (defaultLimits limits)) = PosInf"
  by (auto simp: unlimited_def defaultLimits_def limitBound_def Let_def split: option.splits)

lemma composeMasks_nonempty:
  assumes ne: "sel \<noteq> []" and len: "length sel \<le> 255"
    and wf: "\<forall>m \<in> set sel. distinct (mapPointIndexes df m) \<and> distinct (mapEdgeIndexes df m)"
    and unl: "unlimited limits"
  shows "result (composeMasks df sel excl limits) =
           \<lparr> point = Some (filter (\<lambda>i. (\<forall>m \<in> set sel. i \<in> set (mapPointIndexes df m))
                                     \<and> (\<forall>m \<in> set excl. i \<notin> set (mapPointIndexes df m)))
                             [0..<numPoints df]),
             edge = Some (filter (\<lambda>i. (\<forall>m \<in> set sel. i \<in> set (mapEdgeIndexes df m))
                                    \<and> (\<forall>m \<in> set excl. i \<notin> set (mapEdgeIndexes df m)))
                            [0..<numEdges df]) \<rparr>"
proof -
  have wfp: "\<forall>m \<in> set sel. distinct (mapPointIndexes df m)"
    and wfe: "\<forall>m \<in> set sel. distinct (mapEdgeIndexes df m)"
    using wf by auto
  have pts: "filter (\<lambda>j. fold (\<lambda>m cs. fold (\<lambda>idx cs. zeroAt cs idx) (mapPointIndexes df m) cs) excl
                 (fold (\<lambda>m cs. fold (\<lambda>idx cs. incrementAt cs idx) (mapPointIndexes df m) cs) sel
                    (replicate (numPoints df) 0)) ! j = length sel) [0..<numPoints df]
        = filter (\<lambda>i. (\<forall>m \<in> set sel. i \<in> set (mapPointIndexes df m))
                      \<and> (\<forall>m \<in> set excl. i \<notin> set (mapPointIndexes df m))) [0..<numPoints df]"
    by (rule filter_cong [OF refl]) (simp add: counters_decide [OF wfp len ne])
  have eds: "filter (\<lambda>j. fold (\<lambda>m cs. fold (\<lambda>idx cs. zeroAt cs idx) (mapEdgeIndexes df m) cs) excl
                 (fold (\<lambda>m cs. fold (\<lambda>idx cs. incrementAt cs idx) (mapEdgeIndexes df m) cs) sel
                    (replicate (numEdges df) 0)) ! j = length sel) [0..<numEdges df]
        = filter (\<lambda>i. (\<forall>m \<in> set sel. i \<in> set (mapEdgeIndexes df m))
                      \<and> (\<forall>m \<in> set excl. i \<notin> set (mapEdgeIndexes df m))) [0..<numEdges df]"
    by (rule filter_cong [OF refl]) (simp add: counters_decide [OF wfe len ne])
  show ?thesis
    using ne len unlimited_bounds [OF unl]
    by (simp add: composeMasks_def Let_def MASK_LIMIT_def fold_pair_split
        collectSatisfied_unlimited pts eds)
qed


lemma full_mask_indexes:
  "mapPointIndexes df fullDataframeMask = [0..<numPoints df]"
  "mapEdgeIndexes df fullDataframeMask = [0..<numEdges df]"
  by (simp_all add: mapPointIndexes_def mapEdgeIndexes_def mapIndexes_def fullDataframeMask_def
      numByType_def numPoints_def numEdges_def)

lemma composeMasks_empty_selection:
  "result (composeMasks df [] excl limits) = result (composeMasks df [fullDataframeMask] excl limits)"
  by (simp add: composeMasks_def Let_def)

text \<open>
  C2: with at most 255 selection masks, each listing an index at most once, and no finite
  limit, the result holds per component type exactly the indices (in ascending order)
  that every selection mask contains and no exclusion mask contains; an empty selection
  gives the result of the single full mask.
\<close>

theorem composeMasks_intersects_and_excludes:
  assumes len: "length selectionMasks \<le> 255"
    and wf: "\<forall>m \<in> set selectionMasks. distinct (mapPointIndexes df m) \<and> distinct (mapEdgeIndexes df m)"
    and unl: "unlimited limits"
  shows "result (composeMasks df selectionMasks exclusionMasks limits) =
           \<lparr> point = Some (filter (\<lambda>i. (\<forall>m \<in> set selectionMasks. i \<in> set (mapPointIndexes df m))
                                     \<and> (\<forall>m \<in> set exclusionMasks. i \<notin> set (mapPointIndexes df m)))
                             [0..<numPoints df]),
             edge = Some (filter (\<lambda>i. (\<forall>m \<in> set selectionMasks. i \<in> set (mapEdgeIndexes df m))
                                    \<and> (\<forall>m \<in> set exclusionMasks. i \<notin> set (mapEdgeIndexes df m)))
                            [0..<numEdges df]) \<rparr>
         \<and> result (composeMasks df [] exclusionMasks limits) =
             result (composeMasks df [fullDataframeMask] exclusionMasks limits)"
proof (cases "selectionMasks = []")
  case False
  then show ?thesis
    using composeMasks_nonempty [OF False len wf unl, of exclusionMasks]
    by (simp add: composeMasks_empty_selection)
next
  case True
  have "result (composeMasks df [fullDataframeMask] exclusionMasks limits) =
           \<lparr> point = Some (filter (\<lambda>i. (\<forall>m \<in> set [fullDataframeMask]. i \<in> set (mapPointIndexes df m))
                                     \<and> (\<forall>m \<in> set exclusionMasks. i \<notin> set (mapPointIndexes df m)))
                             [0..<numPoints df]),
             edge = Some (filter (\<lambda>i. (\<forall>m \<in> set [fullDataframeMask]. i \<in> set (mapEdgeIndexes df m))
                                    \<and> (\<forall>m \<in> set exclusionMasks. i \<notin> set (mapEdgeIndexes df m)))
                            [0..<numEdges df]) \<rparr>"
    using unl by (intro composeMasks_nonempty) (simp_all add: full_mask_indexes)
  moreover have "filter (\<lambda>i. (\<forall>m \<in> set [fullDataframeMask]. i \<in> set (mapPointIndexes df m))
                                     \<and> (\<forall>m \<in> set exclusionMasks. i \<notin> set (mapPointIndexes df m)))
                             [0..<numPoints df]
      = filter (\<lambda>i. \<forall>m \<in> set exclusionMasks. i \<notin> set (mapPointIndexes df m)) [0..<numPoints df]"
    by (rule filter_cong [OF refl]) (simp add: full_mask_indexes)
  moreover have "filter (\<lambda>i. (\<forall>m \<in> set [fullDataframeMask]. i \<in> set (mapEdgeIndexes df m))
                                     \<and> (\<forall>m \<in> set exclusionMasks. i \<notin> set (mapEdgeIndexes df m)))
                             [0..<numEdges df]
      = filter (\<lambda>i. \<forall>m \<in> set exclusionMasks. i \<notin> set (mapEdgeIndexes df m)) [0..<numEdges df]"
    by (rule filter_cong [OF refl]) (simp add: full_mask_indexes)
  ultimately show ?thesis
    using True by (simp add: composeMasks_empty_selection)
qed

lemma example_counts: "numPoints exampleFrame = 4" "numEdges exampleFrame = 3"
  by (simp_all add: numPoints_def numEdges_def exampleFrame_def exampleData_def)

text \<open>
  The two examples of C2 on the 4-point dataset: \<open>composeMasks([A, B], [], {})\<close> with the points
  \<open>{0,1,2}\<close> and \<open>{1,2,3}\<close> yields the points \<open>{1,2}\<close>, and \<open>composeMasks([], [], {})\<close>
  yields every point and every edge.
\<close>

theorem composeMasks_examples:
  "result (composeMasks exampleFrame
             [\<lparr> point = Some [0, 1, 2], edge = None \<rparr>, \<lparr> point = Some [1, 2, 3], edge = None \<rparr>]
             [] (Some \<lparr> pointLimit = None, edgeLimit = None \<rparr>))
     = \<lparr> point = Some [1, 2], edge = Some [0, 1, 2] \<rparr>
   \<and> result (composeMasks exampleFrame [] [] (Some \<lparr> pointLimit = None, edgeLimit = None \<rparr>))
     = \<lparr> point = Some [0, 1, 2, 3], edge = Some [0, 1, 2] \<rparr>"
proof -
  let ?A = "\<lparr> point = Some [0, 1, 2], edge = None \<rparr>"
  let ?B = "\<lparr> point = Some [1, 2, 3], edge = None \<rparr>"
  let ?lim = "Some \<lparr> pointLimit = None, edgeLimit = None \<rparr>"
  have unl: "unlimited ?lim" by (simp add: unlimited_def)
  have idx: "\<And>ps e. mapPointIndexes exampleFrame \<lparr> point = Some ps, edge = e \<rparr> = ps"
    "\<And>p. mapEdgeIndexes exampleFrame \<lparr> point = p, edge = None \<rparr> = [0, 1, 2]"
    by (simp_all add: mapPointIndexes_def mapEdgeIndexes_def mapIndexes_def numByType_def
        exampleFrame_def exampleData_def upt_rec)
  have len2: "length [?A, ?B] \<le> 255" by simp
  have wf2: "\<forall>m \<in> set [?A, ?B]. distinct (mapPointIndexes exampleFrame m)
               \<and> distinct (mapEdgeIndexes exampleFrame m)"
    by (simp add: idx)
  have len0: "length ([] :: DataframeMask list) \<le> 255" by simp
  have wf0: "\<forall>m \<in> set []. distinct (mapPointIndexes exampleFrame m)
               \<and> distinct (mapEdgeIndexes exampleFrame m)"
    by simp
  have two: "result (composeMasks exampleFrame [?A, ?B] [] ?lim)
               = \<lparr> point = Some [1, 2], edge = Some [0, 1, 2] \<rparr>"
    using composeMasks_intersects_and_excludes [OF len2 wf2 unl, of "[]"]
    by (simp add: idx example_counts upt_rec)
  have none: "result (composeMasks exampleFrame [] [] ?lim)
               = \<lparr> point = Some [0, 1, 2, 3], edge = Some [0, 1, 2] \<rparr>"
    using composeMasks_intersects_and_excludes [OF len0 wf0 unl, of "[]"]
    by (simp add: example_counts upt_rec)
  show ?thesis using two none by simp
qed

lemma composeMasks_arguments_after:
  "selectionMasksAfter (composeMasks df sel excl limits) = take 255 sel"
  "exclusionMasksAfter (composeMasks df sel excl limits) = excl"
  "limitsAfter (composeMasks df sel excl limits) =
     map_option (\<lambda>l. \<lparr> pointLimit = Some (limitBound (pointLimit l)),
                        edgeLimit = Some (limitBound (edgeLimit l)) \<rparr>) limits"
  by (auto simp: composeMasks_def Let_def MASK_LIMIT_def defaultLimits_def limitBound_def
      split: option.splits)

text \<open>
  C8 as stated fails: a \<open>limits\<close> object without entries comes back with both entries set
  to \<open>Infinity\<close>, and an array of 256 selection masks comes back with 255.
\<close>

theorem composeMasks_mutates_arguments:
  "limitsAfter (composeMasks exampleFrame [] [] (Some \<lparr> pointLimit = None, edgeLimit = None \<rparr>))
     \<noteq> Some \<lparr> pointLimit = None, edgeLimit = None \<rparr>
   \<and> selectionMasksAfter (composeMasks exampleFrame (replicate 256 fullDataframeMask) [] None)
     \<noteq> replicate 256 fullDataframeMask"
proof -
  have "length (take 255 (replicate 256 fullDataframeMask)) \<noteq> length (replicate 256 fullDataframeMask)"
    by simp
  then have "take 255 (replicate 256 fullDataframeMask) \<noteq> replicate 256 fullDataframeMask"
    by metis
  then show ?thesis
    by (simp add: composeMasks_arguments_after limitBound_def)
qed

text \<open>
  C8, amended: the call leaves the exclusion masks as they are; it leaves the selection
  masks as they are when there are at most 255 of them and truncates the array to its
  first 255 entries otherwise; in a \<open>limits\<close> object it fills the missing entries with
  \<open>Infinity\<close>, so an object with both entries present is unchanged.
\<close>

theorem composeMasks_effects_on_arguments:
  "exclusionMasksAfter (composeMasks df selectionMasks exclusionMasks limits) = exclusionMasks
   \<and> selectionMasksAfter (composeMasks df selectionMasks exclusionMasks limits) = take 255 selectionMasks
   \<and> (length selectionMasks \<le> 255 \<longrightarrow>
        selectionMasksAfter (composeMasks df selectionMasks exclusionMasks limits) = selectionMasks)
   \<and> limitsAfter (composeMasks df selectionMasks exclusionMasks limits) =
        map_option (\<lambda>l. \<lparr> pointLimit = Some (limitBound (pointLimit l)),
                           edgeLimit = Some (limitBound (edgeLimit l)) \<rparr>) limits
   \<and> (\<forall>p e. limits = Some \<lparr> pointLimit = Some p, edgeLimit = Some e \<rparr> \<longrightarrow>
        limitsAfter (composeMasks df selectionMasks exclusionMasks limits) = limits)"
  by (simp add: composeMasks_arguments_after limitBound_def)

theorem composeMasks_effects_on_arguments_witness:
  "length [fullDataframeMask] \<le> 255
   \<and> selectionMasksAfter (composeMasks exampleFrame [fullDataframeMask] [fullDataframeMask]
        (Some \<lparr> pointLimit = Some (Fin 2), edgeLimit = Some PosInf \<rparr>)) = [fullDataframeMask]
   \<and> exclusionMasksAfter (composeMasks exampleFrame [fullDataframeMask] [fullDataframeMask]
        (Some \<lparr> pointLimit = Some (Fin 2), edgeLimit = Some PosInf \<rparr>)) = [fullDataframeMask]
   \<and> limitsAfter (composeMasks exampleFrame [fullDataframeMask] [fullDataframeMask]
        (Some \<lparr> pointLimit = Some (Fin 2), edgeLimit = Some PosInf \<rparr>))
       = Some \<lparr> pointLimit = Some (Fin 2), edgeLimit = Some PosInf \<rparr>"
  using composeMasks_effects_on_arguments [of exampleFrame "[fullDataframeMask]" "[fullDataframeMask]"
      "Some \<lparr> pointLimit = Some (Fin 2), edgeLimit = Some PosInf \<rparr>"]
  by (simp add: limitBound_def)

text \<open>
  C9: for an edge row the translation through \<open>edgePermutationInverseTyped\<close> happens only
  at a nonzero index. At index 0 the row is read at the global index of local position 0
  (position 0 itself under the full mask), whatever the permutation is; at a nonzero
  index it is read through the inverse permutation.
\<close>

theorem getRowAt_edge_zero_untranslated:
  "getRowAt df 0 Edge attributesArg =
     Inr \<lparr> cells = readRow df attributesArg Edge (getIndexByType (lastMasks df) Edge (Some 0)),
           rowIndex = 0 \<rparr>
   \<and> (edge (lastMasks df) = None \<longrightarrow>
        getRowAt df 0 Edge attributesArg =
          Inr \<lparr> cells = readRow df attributesArg Edge (Some 0), rowIndex = 0 \<rparr>)
   \<and> (index \<noteq> 0 \<and> forwardsEdges (hostBuffers (data df)) = Some fwd \<longrightarrow>
        getRowAt df index Edge attributesArg =
          Inr \<lparr> cells = readRow df attributesArg Edge
                          (getIndexByType (lastMasks df) Edge
                             (lookupIndex (edgePermutationInverseTyped fwd) index)),
                rowIndex = index \<rparr>)"
  by (simp add: getRowAt_def readRow_def Let_def getHostBufferForwardsEdges_def getIndexByType_def)

lemma swapped_inverse:
  "edgePermutationInverseTyped (encapsulateEdges swappedEdges 2) = [1, 0]"
  by (simp add: encapsulateEdges_def computeEdgeList_def swappedEdges_def Let_def upt_rec
      less_eq_prod_def)

theorem getRowAt_edge_zero_untranslated_witness:
  "(1::nat) \<noteq> 0
   \<and> forwardsEdges (hostBuffers (data swappedFrame)) = Some (encapsulateEdges swappedEdges 2)
   \<and> edge (lastMasks swappedFrame) = None
   \<and> edgePermutationInverseTyped (encapsulateEdges swappedEdges 2) = [1, 0]
   \<and> getRowAt swappedFrame 0 Edge None = Inr \<lparr> cells = [(''weight'', Some 10)], rowIndex = 0 \<rparr>
   \<and> getRowAt swappedFrame 1 Edge None = Inr \<lparr> cells = [(''weight'', Some 10)], rowIndex = 1 \<rparr>"
proof -
  have h: "forwardsEdges (hostBuffers (data swappedFrame)) = Some (encapsulateEdges swappedEdges 2)"
    and f: "edge (lastMasks swappedFrame) = None"
    by (simp_all add: swappedFrame_def swappedData_def fullDataframeMask_def)
  have r0: "readRow swappedFrame None Edge (Some 0) = [(''weight'', Some 10)]"
    by (simp add: readRow_def swappedFrame_def swappedData_def lookupIndex_def)
  have g: "getIndexByType (lastMasks swappedFrame) Edge (Some 0) = Some 0"
    by (simp add: getIndexByType_def f)
  show ?thesis
    using h f getRowAt_edge_zero_untranslated [of swappedFrame None 1 "encapsulateEdges swappedEdges 2"]
    by (simp add: swapped_inverse lookupIndex_def r0 g)
qed

section \<open>Properties of the filter pass\<close>

lemma filter_noop_iff:
  "(applyDataframeMaskToFilterInPlace host maskStore df versions masksRef
      = Inr (Resolved VFalse, df', versions'))
   = ((masksRef = lastMasksRef df
        \<or> simulatorBuffers (rawdata df) ''forwardsEdgeWeights'' = None
        \<or> simulatorBuffers (rawdata df) ''backwardsEdgeWeights'' = None)
      \<and> df' = df \<and> versions' = versions)"
  by (auto simp: applyDataframeMaskToFilterInPlace_def Let_def split: sum.splits prod.splits)

lemma filter_completed:
  assumes "applyDataframeMaskToFilterInPlace host maskStore df versions masksRef
             = Inr (Resolved VUndefined, df1, versions1)"
  shows "masksRef \<noteq> lastMasksRef df \<and> lastMasksRef df1 = lastMasksRef df
         \<and> rawdata df1 = rawdata df \<and> tick versions1 = tick versions + 1
         \<and> versionBuffers versions1 key = map_option (\<lambda>n. n + 1) (versionBuffers versions key)"
  using assms
  by (auto simp: applyDataframeMaskToFilterInPlace_def Let_def bumpVersions_def
      split: sum.splits prod.splits if_splits)

lemma full_mask_counts:
  "maskNumPoints df fullDataframeMask = numPoints df"
  "maskNumEdges df fullDataframeMask = numEdges df"
  by (simp_all add: maskNumPoints_def maskNumEdges_def full_mask_indexes)

lemma filter_completes:
  assumes "masksRef \<noteq> lastMasksRef df"
    and "maskStore masksRef = fullDataframeMask"
    and "simulatorBuffers (rawdata df) = readyBuffers"
    and "simulatorBuffers (data df) ''curPoints'' \<noteq> None"
    and "forwardsEdges (hostBuffers (rawdata df)) \<noteq> None"
    and "unsortedEdges (hostBuffers (rawdata df)) \<noteq> None"
  shows "\<exists>df1. applyDataframeMaskToFilterInPlace readyHost maskStore df versions masksRef
               = Inr (Resolved VUndefined, df1, bumpVersions versions)
             \<and> simulatorBuffers (data df1) ''curPoints'' \<noteq> None"
  using assms
  by (auto simp: applyDataframeMaskToFilterInPlace_def buildFilteredData_def Let_def
      full_mask_counts readyBuffers_def readyHost_def someBufferPropertyNames_def)

lemma firstPass_completes:
  "\<exists>df1. firstPass = Inr (Resolved VUndefined, df1, bumpVersions startVersions)
         \<and> simulatorBuffers (data df1) ''curPoints'' \<noteq> None"
  unfolding firstPass_def
  by (rule filter_completes)
     (simp_all add: readyFrame_def callerMasks_def exampleData_def readyBuffers_def)

text \<open>
  A pass that completes copies the fields of the mask into \<open>lastMasks\<close> and does not
  keep the object passed. A second call with the same mask object therefore never
  takes the no-op path, and when it completes, the tick and every buffer version have
  been incremented twice.
\<close>

lemma filter_repeat_runs_again:
  assumes first: "applyDataframeMaskToFilterInPlace host maskStore df versions masksRef
                    = Inr (Resolved VUndefined, df1, versions1)"
  shows "applyDataframeMaskToFilterInPlace host2 maskStore df1 versions1 masksRef
           \<noteq> Inr (Resolved VFalse, df1, versions1)"
    and "applyDataframeMaskToFilterInPlace host2 maskStore df1 versions1 masksRef
           = Inr (Resolved VUndefined, df2, versions2) \<Longrightarrow>
         tick versions2 = tick versions + 2
         \<and> versionBuffers versions2 key = map_option (\<lambda>n. n + 2) (versionBuffers versions key)"
proof -
  note c = filter_completed [OF first]
  have pop: "simulatorBuffers (rawdata df) ''forwardsEdgeWeights'' \<noteq> None
             \<and> simulatorBuffers (rawdata df) ''backwardsEdgeWeights'' \<noteq> None"
    using first
    by (auto simp: applyDataframeMaskToFilterInPlace_def Let_def split: if_splits)
  show "applyDataframeMaskToFilterInPlace host2 maskStore df1 versions1 masksRef
          \<noteq> Inr (Resolved VFalse, df1, versions1)"
    using c pop by (simp add: filter_noop_iff)
  assume second: "applyDataframeMaskToFilterInPlace host2 maskStore df1 versions1 masksRef
                    = Inr (Resolved VUndefined, df2, versions2)"
  have t: "tick versions2 = tick versions + 2"
    using filter_completed [OF second] c by simp
  have "versionBuffers versions2 key
          = map_option (\<lambda>n. n + 1) (map_option (\<lambda>n. n + 1) (versionBuffers versions key))"
    using filter_completed [OF second, of key] filter_completed [OF first, of key] by simp
  then have "versionBuffers versions2 key = map_option (\<lambda>n. n + 2) (versionBuffers versions key)"
    by (cases "versionBuffers versions key") simp_all
  then show "tick versions2 = tick versions + 2
         \<and> versionBuffers versions2 key = map_option (\<lambda>n. n + 2) (versionBuffers versions key)"
    using t by simp
qed

text \<open>
  C3, on the ready dataset: filtering twice in a row with the same mask object (object
  1, not the dataframe's \<open>lastMasks\<close>, which is object 0) runs the full pass both times.
  The second call is not a no-op: it resolves with \<open>undefined\<close>, and it increments the
  tick and the version counter of the buffer \<open>curPoints\<close> a second time, from 1 to 2.
\<close>

theorem second_filter_with_same_mask_bumps_versions:
  "settledAs firstPass = Some (Resolved VUndefined)
   \<and> tickAfter firstPass = Some 1
   \<and> versionAfter firstPass ''curPoints'' = Some 1
   \<and> settledAs secondPass = Some (Resolved VUndefined)
   \<and> tickAfter secondPass = Some 2
   \<and> versionAfter secondPass ''curPoints'' = Some 2"
proof -
  obtain df1 where first: "firstPass = Inr (Resolved VUndefined, df1, bumpVersions startVersions)"
    and cur: "simulatorBuffers (data df1) ''curPoints'' \<noteq> None"
    using firstPass_completes by blast
  have c: "lastMasksRef df1 = lastMasksRef readyFrame" "rawdata df1 = rawdata readyFrame"
    using filter_completed [OF first [unfolded firstPass_def]] by simp_all
  have "\<exists>df2. applyDataframeMaskToFilterInPlace readyHost callerMasks df1
                 (bumpVersions startVersions) 1
               = Inr (Resolved VUndefined, df2, bumpVersions (bumpVersions startVersions))
             \<and> simulatorBuffers (data df2) ''curPoints'' \<noteq> None"
    using cur c
    by (intro filter_completes)
       (simp_all add: readyFrame_def callerMasks_def exampleData_def)
  then obtain df2 where second:
    "secondPass = Inr (Resolved VUndefined, df2, bumpVersions (bumpVersions startVersions))"
    by (auto simp: secondPass_def first)
  show ?thesis
    by (simp add: first second settledAs_def tickAfter_def versionAfter_def bumpVersions_def
        startVersions_def)
qed

section \<open>Properties of the histogram\<close>

lemma agg_example:
  "minValue (fixedAllocationNumericAggregations [Fin 10, Fin 5, Fin 7]) = Fin 5"
  "maxValue (fixedAllocationNumericAggregations [Fin 10, Fin 5, Fin 7]) = Fin 7"
  "countDistinct (countDistinctAgg (Some 500) [Fin 10, Fin 5, Fin 7]) = 3"
  "isIntegral (inferDataType [Fin 10, Fin 5, Fin 7]) = True"
  by (simp_all add: fixedAllocationNumericAggregations_def count_def countDistinctAgg_def
      inferDataType_def initialDistinctState_def Let_def valueSignifiedUndefined_def
      numberSignifiesUndefined_def js_gt_def parseFloat_def)

lemma binning_example:
  "calculateBinning [Fin 10, Fin 5, Fin 7] 3 None =
     Some \<lparr> numBins = Fin 3, binWidth = Fin 1, isCountBy = Some True,
            binMinValue = Fin 5, binMaxValue = Fin 7 \<rparr>"
  by (simp add: calculateBinning_def agg_example Let_def js_sub_def)


lemma numbers_are_numeric_loop:
  "isNumeric0 \<Longrightarrow> fst (snd (inferLoop vals jsType0 isNumeric0 isIntegral0))"
  by (induction vals arbitrary: jsType0 isIntegral0)
     (auto simp: valueSignifiedUndefined_def numberSignifiesUndefined_def Let_def)

lemma numbers_are_numeric: "isNumeric (inferDataType vals)"
  using numbers_are_numeric_loop [of True vals None True]
  by (auto simp: inferDataType_def count_def split: prod.splits)

lemma toInt32_small:
  assumes "0 \<le> q" and "q < 2 ^ 31"
  shows "toInt32 (Fin q) = \<lfloor>q\<rfloor>"
proof -
  have lo: "0 \<le> \<lfloor>q\<rfloor>" using assms(1) by simp
  have hi: "\<lfloor>q\<rfloor> < 2 ^ 31" using assms(2) by (simp add: floor_less_iff)
  have "\<lfloor>q\<rfloor> mod 2 ^ 32 = \<lfloor>q\<rfloor>" using lo hi by simp
  then show ?thesis using assms(1) hi by (simp add: Let_def)
qed

text \<open>
  With \<open>n \<ge> 2\<close> bins of width \<open>(hi - lo) / (n - 1)\<close>, as \<open>calculateBinning\<close> sets them for an
  integral column with few distinct values and for an explicit goal, every value
  between \<open>lo\<close> and \<open>hi\<close> gets a bin in \<open>[0, n)\<close>, \<open>hi\<close> included. A value misses the bins
  only when it lies outside the bounds of the binning.
\<close>

lemma binId_in_range:
  fixes lo hi v :: real and n :: nat
  assumes n: "2 \<le> n" "n < 2 ^ 31" and span: "lo < hi" and v: "lo \<le> v" "v \<le> hi"
  shows "0 \<le> binIdOf (Fin lo) (js_div (js_sub (Fin hi) (Fin lo)) (js_sub (Fin (real n)) (Fin 1))) (Fin v)
         \<and> binIdOf (Fin lo) (js_div (js_sub (Fin hi) (Fin lo)) (js_sub (Fin (real n)) (Fin 1))) (Fin v)
             < int n"
proof -
  define w where "w = (hi - lo) / (real n - 1)"
  define q where "q = (v - lo) / w"
  have n1: "0 < real n - 1" using n(1) by simp
  have w: "0 < w" unfolding w_def using span n1 by (intro divide_pos_pos) simp_all
  have width: "js_div (js_sub (Fin hi) (Fin lo)) (js_sub (Fin (real n)) (Fin 1)) = Fin w"
    unfolding w_def using n1 by (simp add: js_sub_def)
  have q0: "0 \<le> q" unfolding q_def using v(1) w by (intro divide_nonneg_pos) simp_all
  have top: "(hi - lo) / w = real n - 1"
    unfolding w_def using span n1 by simp
  have "q \<le> (hi - lo) / w"
    unfolding q_def using v(2) w by (intro divide_right_mono) simp_all
  then have q1: "q \<le> real n - 1" using top by simp
  have "real n < 2 ^ 31" using n(2) by (metis of_nat_less_iff of_nat_numeral of_nat_power)
  then have q2: "q < 2 ^ 31" using q1 by linarith
  have id: "binIdOf (Fin lo) (Fin w) (Fin v) = \<lfloor>q\<rfloor>"
    using w toInt32_small [OF q0 q2] by (simp add: binIdOf_def js_sub_def q_def)
  have "\<lfloor>q\<rfloor> \<le> \<lfloor>real n - 1\<rfloor>" using q1 by (rule floor_mono)
  moreover have "\<lfloor>real n - 1\<rfloor> = int n - 1" by simp
  ultimately have "\<lfloor>q\<rfloor> < int n" by simp
  moreover have "0 \<le> \<lfloor>q\<rfloor>" using q0 by simp
  ultimately show ?thesis
    by (simp add: width id)
qed

text \<open>
  C10, at the column \<open>[10, 5, 7]\<close> with the indices of all its values: the aggregations
  give \<open>minValue = 5\<close> and \<open>maxValue = 7\<close> (the first value is a new minimum and never
  reaches the test against \<open>maxValue\<close>), the binning has 3 bins of width 1, and the value
  10 gets the bin 5, which is no entry of \<open>bins\<close>: the increment stores NaN at index 5.
\<close>

theorem histogram_counts_outside_bins:
  "resultNumBins (histogram [Fin 10, Fin 5, Fin 7] None None [0, 1, 2]) = Some (Fin 3)
   \<and> binIdOf (Fin 5) (Fin 1) (Fin 10) = 5
   \<and> resultBin (histogram [Fin 10, Fin 5, Fin 7] None None [0, 1, 2]) 5 = Some NaN
   \<and> resultBin (histogram [Fin 10, Fin 5, Fin 7] None None [0, 1, 2]) 0 = Some (Fin 1)
   \<and> resultBin (histogram [Fin 10, Fin 5, Fin 7] None None [0, 1, 2]) 1 = Some (Fin 0)
   \<and> resultBin (histogram [Fin 10, Fin 5, Fin 7] None None [0, 1, 2]) 2 = Some (Fin 1)"
  by (simp add: histogram_def agg_example binning_example Let_def js_eq_def resultNumBins_def
      resultBin_def lookupIndex_def numberSignifiesUndefined_def binIdOf_def js_sub_def)

end
